theory Spec2Isabelle
  imports Complex_Main "HOL-Library.AList"
begin

section \<open>Data model\<close>

text \<open>
  The route-construction engine of \<^verbatim>\<open>src/app.py\<close>: the geometric fallback estimator
  \<^verbatim>\<open>haversine_distance\<close> and the dispatch simulation \<^verbatim>\<open>run_vrptw\<close> with its nested
  \<^verbatim>\<open>simulate_vehicle\<close>.

  Conventions of the embedding.
  \<^item> A Python float is a \<^typ>\<open>real\<close>; the values that a run can hold are the doubles
    (IEEE 754 binary64), and there is no infinity and no NaN. Capacities and demand
    quantities are subtracted as the source subtracts them, by the double subtraction
    \<open>fsub\<close>, which rounds the exact difference to the nearest double. The comparisons
    and \<^verbatim>\<open>min\<close> are exact in doubles as they are in the reals.
  \<^item> Distances, durations and instants are exact reals. A \<^verbatim>\<open>datetime\<close> is a
    \<^typ>\<open>real\<close> number of minutes on a fixed time line, so
    \<^verbatim>\<open>t + timedelta(minutes=m)\<close> is \<open>t + m\<close>.
  \<^item> A Python \<^verbatim>\<open>dict\<close> is an association list with distinct keys in insertion order;
    \<^verbatim>\<open>d[k] = v\<close> is \<^const>\<open>AList.update\<close> (replace in place, else append).
  \<^item> An exception is a value \<open>Inl e\<close> of a sum type; a loop that does not end is the
    value \<open>None\<close>.
\<close>

datatype error = ValueError | IndexError | KeyError

type_synonym coord = "real \<times> real"

text \<open>A leg dictionary, lines 90-94: keys from, to, depart, arrive, deliver, unload, distance.\<close>

record leg =
  leg_from :: string
  leg_to :: string
  leg_depart :: real
  leg_arrive :: real
  leg_deliver :: real
  leg_unload :: real
  leg_distance :: real

text \<open>
  A vehicle dictionary, lines 149-154. \<open>vstart\<close> is the value of
  \<^verbatim>\<open>datetime.strptime\<close> on the vehicle's startDate and startTime (line 76), \<open>None\<close>
  when \<^verbatim>\<open>strptime\<close> raises \<^verbatim>\<open>ValueError\<close>.
\<close>

record vehicle =
  vid :: nat
  vcapacity :: real
  vstart :: "real option"

text \<open>A demand dictionary, lines 174-177.\<close>

record demand =
  d_city :: string
  d_demand :: real
  tw_start :: string
  tw_end :: string

text \<open>The local variables of \<^verbatim>\<open>simulate_vehicle\<close> (lines 77-80) and the shared demands dict.\<close>

record sim_state =
  time_var :: real
  location :: string
  capacity :: real
  route :: "leg list"
  demands :: "(string \<times> real) list"

text \<open>The outcome of one pass through the body of the while loop of line 84.\<close>

datatype step = Continue sim_state | Break

section \<open>Utilities\<close>

definition bindE :: "'e + 'a \<Rightarrow> ('a \<Rightarrow> 'e + 'b) \<Rightarrow> 'e + 'b" where
  "bindE m f = (case m of Inl e \<Rightarrow> Inl e | Inr x \<Rightarrow> f x)"

text \<open>
  Double arithmetic. A non-zero real \<open>x\<close> lies in the binade of exponent \<open>expo x\<close>
  (at least -1022, where the subnormal numbers begin); the doubles of that binade are the
  multiples of \<open>ulp x\<close>, 52 binary places below; \<open>round_double x\<close> is the multiple nearest
  to \<open>x\<close>, the even one of two equally near. The exponent has no upper bound here: the
  engine subtracts only \<open>b\<close> from \<open>a\<close> with \<open>0 < b \<le> a\<close>, which cannot overflow.
\<close>

definition expo :: "real \<Rightarrow> int" where
  "expo x = max \<lfloor>log 2 \<bar>x\<bar>\<rfloor> (- 1022)"

definition ulp :: "real \<Rightarrow> real" where
  "ulp x = 2 powr real_of_int (expo x - 52)"

definition round_half_even :: "real \<Rightarrow> int" where
  "round_half_even y =
     (if y - of_int \<lfloor>y\<rfloor> < 1 / 2 then \<lfloor>y\<rfloor>
      else if 1 / 2 < y - of_int \<lfloor>y\<rfloor> then \<lfloor>y\<rfloor> + 1
      else if even \<lfloor>y\<rfloor> then \<lfloor>y\<rfloor> else \<lfloor>y\<rfloor> + 1)"

definition round_double :: "real \<Rightarrow> real" where
  "round_double x = (if x = 0 then 0 else ulp x * of_int (round_half_even (x / ulp x)))"

text \<open>The values of Python floats: the reals that rounding leaves as they are.\<close>

definition is_double :: "real \<Rightarrow> bool" where
  "is_double x \<longleftrightarrow> round_double x = x"

text \<open>\<^verbatim>\<open>a - b\<close> on Python floats.\<close>

definition fsub :: "real \<Rightarrow> real \<Rightarrow> real" where
  "fsub a b = round_double (a - b)"

text \<open>\<^verbatim>\<open>np.radians\<close>.\<close>

definition radians :: "real \<Rightarrow> real" where
  "radians x = x * pi / 180"

text \<open>\<^verbatim>\<open>haversine_distance\<close>, lines 23-34.\<close>

definition haversine_distance :: "coord \<Rightarrow> coord \<Rightarrow> real \<times> real" where
  "haversine_distance c1 c2 =
     (case c1 of (lat1d, lon1d) \<Rightarrow>
      case c2 of (lat2d, lon2d) \<Rightarrow>
        let lat1 = radians lat1d; lon1 = radians lon1d;
            lat2 = radians lat2d; lon2 = radians lon2d;
            dlat = lat2 - lat1;
            dlon = lon2 - lon1;
            a = (sin (dlat / 2))\<^sup>2 + cos lat1 * cos lat2 * (sin (dlon / 2))\<^sup>2;
            c = 2 * arcsin (sqrt a);
            r = 6371;
            distance_km = r * c;
            time_minutes = (distance_km * 1.3 / 50) * 60
        in (distance_km * 1.3, time_minutes))"

text \<open>
  The matrix of \<^verbatim>\<open>build_matrices\<close>, lines 194-203, from the resolved coordinates of the
  cities in order and the estimator called for every ordered pair \<open>i \<noteq> j\<close>; the diagonal
  stays zero. With the remote service disabled the estimator is \<^const>\<open>haversine_distance\<close>
  (line 52).
\<close>

definition build_matrix :: "(coord \<Rightarrow> coord \<Rightarrow> real \<times> real) \<Rightarrow> coord list \<Rightarrow> real list list" where
  "build_matrix estimate cs =
     map (\<lambda>i. map (\<lambda>j. if i \<noteq> j then fst (estimate (cs ! i) (cs ! j)) else 0)
                 [0..<length cs]) [0..<length cs]"

section \<open>Routing algorithm\<close>

definition SPEED_KMPH :: real where
  "SPEED_KMPH = 60"

definition UNLOAD_MIN_PER_100KG :: real where
  "UNLOAD_MIN_PER_100KG = 30"

text \<open>\<^verbatim>\<open>list.index\<close>: the first position of the element, \<open>None\<close> for \<^verbatim>\<open>ValueError\<close>.\<close>

fun list_index :: "'a list \<Rightarrow> 'a \<Rightarrow> nat option" where
  "list_index [] x = None"
| "list_index (y # ys) x = (if y = x then Some 0 else map_option Suc (list_index ys x))"

text \<open>\<^verbatim>\<open>distance_matrix[i][j]\<close> with non-negative indices.\<close>

definition matrix_at :: "real list list \<Rightarrow> nat \<Rightarrow> nat \<Rightarrow> error + real" where
  "matrix_at m i j =
     (if i < length m then
        (if j < length (m ! i) then Inr (m ! i ! j) else Inl IndexError)
      else Inl IndexError)"

text \<open>\<^verbatim>\<open>dist_between\<close>, lines 71-73.\<close>

definition dist_between :: "string list \<Rightarrow> real list list \<Rightarrow> string \<Rightarrow> string \<Rightarrow> error + real" where
  "dist_between cities distance_matrix a b =
     (case list_index cities a of None \<Rightarrow> Inl ValueError
      | Some i \<Rightarrow>
        (case list_index cities b of None \<Rightarrow> Inl ValueError
         | Some j \<Rightarrow> matrix_at distance_matrix i j))"

text \<open>\<^verbatim>\<open>travel_time_minutes\<close>, lines 67-69.\<close>

definition travel_time_minutes :: "string list \<Rightarrow> real list list \<Rightarrow> string \<Rightarrow> string \<Rightarrow> error + real" where
  "travel_time_minutes cities distance_matrix a b =
     (case list_index cities a of None \<Rightarrow> Inl ValueError
      | Some i \<Rightarrow>
        (case list_index cities b of None \<Rightarrow> Inl ValueError
         | Some j \<Rightarrow>
           bindE (matrix_at distance_matrix i j) (\<lambda>d. Inr ((d / SPEED_KMPH) * 60))))"

text \<open>\<^verbatim>\<open>demands[city]['remaining']\<close>.\<close>

definition remaining_of :: "(string \<times> real) list \<Rightarrow> string \<Rightarrow> error + real" where
  "remaining_of dems city = (case map_of dems city of None \<Rightarrow> Inl KeyError | Some r \<Rightarrow> Inr r)"

text \<open>The delivery branch of the while body, lines 86-98.\<close>

definition deliver_step :: "string list \<Rightarrow> real list list \<Rightarrow> string \<Rightarrow> sim_state \<Rightarrow> error + sim_state" where
  "deliver_step cities distance_matrix city st =
     bindE (travel_time_minutes cities distance_matrix (location st) city) (\<lambda>travel_min.
     let arrive = time_var st + travel_min in
     bindE (remaining_of (demands st) city) (\<lambda>remaining.
     let deliver = min (capacity st) remaining;
         unload = (deliver / 100) * UNLOAD_MIN_PER_100KG in
     bindE (dist_between cities distance_matrix (location st) city) (\<lambda>km.
     Inr (st\<lparr>route := route st @
                 [\<lparr>leg_from = location st, leg_to = city, leg_depart = time_var st,
                   leg_arrive = arrive, leg_deliver = deliver, leg_unload = unload,
                   leg_distance = km\<rparr>],
              time_var := arrive + unload,
              demands := AList.update city (fsub remaining deliver) (demands st),
              capacity := fsub (capacity st) deliver,
              location := city\<rparr>))))"

text \<open>The branch taken with no capacity left, lines 100-114: refill at the depot or break.\<close>

definition refill_or_break ::
  "string list \<Rightarrow> real list list \<Rightarrow> string \<Rightarrow> real \<Rightarrow> string \<Rightarrow> sim_state \<Rightarrow> error + step" where
  "refill_or_break cities distance_matrix depot vehicle_capacity city st =
     bindE (travel_time_minutes cities distance_matrix (location st) depot) (\<lambda>t1.
     bindE (travel_time_minutes cities distance_matrix depot city) (\<lambda>t2.
     let refill_time = t1 + t2 in
     bindE (travel_time_minutes cities distance_matrix depot city) (\<lambda>new_vehicle_time.
     if refill_time \<le> new_vehicle_time then
       bindE (travel_time_minutes cities distance_matrix (location st) depot) (\<lambda>back.
       let arrive_depot = time_var st + back in
       bindE (dist_between cities distance_matrix (location st) depot) (\<lambda>km.
       Inr (Continue (st\<lparr>route := route st @
                 [\<lparr>leg_from = location st, leg_to = depot, leg_depart = time_var st,
                   leg_arrive = arrive_depot, leg_deliver = 0, leg_unload = 0,
                   leg_distance = km\<rparr>],
              time_var := arrive_depot,
              location := depot,
              capacity := vehicle_capacity\<rparr>))))
     else Inr Break)))"

text \<open>The body of the while loop, lines 85-114.\<close>

definition while_body ::
  "string list \<Rightarrow> real list list \<Rightarrow> string \<Rightarrow> real \<Rightarrow> string \<Rightarrow> sim_state \<Rightarrow> error + step" where
  "while_body cities distance_matrix depot vehicle_capacity city st =
     (if capacity st > 0 then
        bindE (deliver_step cities distance_matrix city st) (\<lambda>st'. Inr (Continue st'))
      else refill_or_break cities distance_matrix depot vehicle_capacity city st)"

text \<open>
  The while loop of line 84 for one city. Nothing in the source bounds the number of its
  passes for every input, so it is a partial function: \<open>None\<close> is the run that never
  leaves the loop. Section Termination proves that it returns whenever the declared
  capacity of the vehicle is positive.
\<close>

partial_function (option) city_loop ::
  "string list \<Rightarrow> real list list \<Rightarrow> string \<Rightarrow> real \<Rightarrow> string \<Rightarrow> sim_state \<Rightarrow> (error + sim_state) option" where
  "city_loop cities distance_matrix depot vehicle_capacity city st =
     (case remaining_of (demands st) city of
        Inl e \<Rightarrow> Some (Inl e)
      | Inr remaining \<Rightarrow>
        if remaining > 0 then
          (case while_body cities distance_matrix depot vehicle_capacity city st of
             Inl e \<Rightarrow> Some (Inl e)
           | Inr Break \<Rightarrow> Some (Inr st)
           | Inr (Continue st') \<Rightarrow>
               city_loop cities distance_matrix depot vehicle_capacity city st')
        else Some (Inr st))"

text \<open>The for loop of line 83 over the demand cities.\<close>

fun for_cities ::
  "string list \<Rightarrow> real list list \<Rightarrow> string \<Rightarrow> real \<Rightarrow> string list \<Rightarrow> sim_state \<Rightarrow> (error + sim_state) option" where
  "for_cities cities distance_matrix depot vehicle_capacity [] st = Some (Inr st)"
| "for_cities cities distance_matrix depot vehicle_capacity (city # rest) st =
     (case city_loop cities distance_matrix depot vehicle_capacity city st of
        None \<Rightarrow> None
      | Some (Inl e) \<Rightarrow> Some (Inl e)
      | Some (Inr st') \<Rightarrow> for_cities cities distance_matrix depot vehicle_capacity rest st')"

text \<open>The closing leg, lines 116-124: the route that \<^verbatim>\<open>simulate_vehicle\<close> returns.\<close>

definition close_route :: "string list \<Rightarrow> real list list \<Rightarrow> string \<Rightarrow> sim_state \<Rightarrow> error + leg list" where
  "close_route cities distance_matrix depot st =
     (if location st \<noteq> depot then
        bindE (travel_time_minutes cities distance_matrix (location st) depot) (\<lambda>back.
        let arrive_depot = time_var st + back in
        bindE (dist_between cities distance_matrix (location st) depot) (\<lambda>km.
        Inr (route st @
               [\<lparr>leg_from = location st, leg_to = depot, leg_depart = time_var st,
                 leg_arrive = arrive_depot, leg_deliver = 0, leg_unload = 0,
                 leg_distance = km\<rparr>])))
      else Inr (route st))"

text \<open>The state in which \<^verbatim>\<open>simulate_vehicle\<close> enters its for loop, lines 76-80.\<close>

definition initial_state :: "string \<Rightarrow> vehicle \<Rightarrow> real \<Rightarrow> (string \<times> real) list \<Rightarrow> sim_state" where
  "initial_state depot v start_dt dems =
     \<lparr>time_var = start_dt, location = depot, capacity = vcapacity v, route = [],
      demands = dems\<rparr>"

text \<open>
  \<^verbatim>\<open>simulate_vehicle\<close>, lines 75-124. The demands dict is shared with the caller and
  mutated in place, so the model returns it beside the route.
\<close>

definition simulate_vehicle ::
  "string list \<Rightarrow> real list list \<Rightarrow> string \<Rightarrow> vehicle \<Rightarrow> (string \<times> real) list
     \<Rightarrow> (error + leg list \<times> (string \<times> real) list) option" where
  "simulate_vehicle cities distance_matrix depot v dems =
     (case vstart v of
        None \<Rightarrow> Some (Inl ValueError)
      | Some start_dt \<Rightarrow>
        (case for_cities cities distance_matrix depot (vcapacity v) (map fst dems)
                (initial_state depot v start_dt dems) of
           None \<Rightarrow> None
         | Some (Inl e) \<Rightarrow> Some (Inl e)
         | Some (Inr st) \<Rightarrow>
             Some (bindE (close_route cities distance_matrix depot st)
                     (\<lambda>r. Inr (r, demands st)))))"

text \<open>The dict comprehension of line 65.\<close>

definition demands_copy :: "demand list \<Rightarrow> (string \<times> real) list" where
  "demands_copy ds = fold (\<lambda>d acc. AList.update (d_city d) (d_demand d) acc) ds []"

text \<open>
  The loop over the vehicles, lines 127-131, from a solution and a demands dict; it
  returns both.
\<close>

fun for_vehicles ::
  "string list \<Rightarrow> real list list \<Rightarrow> string \<Rightarrow> vehicle list \<Rightarrow> (nat \<times> leg list) list
     \<Rightarrow> (string \<times> real) list
     \<Rightarrow> (error + (nat \<times> leg list) list \<times> (string \<times> real) list) option" where
  "for_vehicles cities distance_matrix depot [] solution dems = Some (Inr (solution, dems))"
| "for_vehicles cities distance_matrix depot (v # vs) solution dems =
     (if list_ex (\<lambda>d. snd d > 0) dems then
        (case simulate_vehicle cities distance_matrix depot v dems of
           None \<Rightarrow> None
         | Some (Inl e) \<Rightarrow> Some (Inl e)
         | Some (Inr (r, dems')) \<Rightarrow>
             for_vehicles cities distance_matrix depot vs
               (if r \<noteq> [] then AList.update (vid v) r solution else solution) dems')
      else for_vehicles cities distance_matrix depot vs solution dems)"

text \<open>
  \<^verbatim>\<open>run_vrptw\<close>, lines 62-132 (its parameter \<^verbatim>\<open>coords\<close> is never read and is left out).
\<close>

definition run_vrptw ::
  "vehicle list \<Rightarrow> demand list \<Rightarrow> string list \<Rightarrow> real list list \<Rightarrow> string
     \<Rightarrow> (error + (nat \<times> leg list) list) option" where
  "run_vrptw vehicles ds cities distance_matrix depot =
     map_option (map_sum id fst)
       (for_vehicles cities distance_matrix depot vehicles [] (demands_copy ds))"

section \<open>Notions used to state the properties\<close>

text \<open>
  The great-circle distance of the haversine formula on a sphere of radius \<open>R\<close>, between
  two points given as (latitude, longitude) in degrees, as the specification words it.
\<close>

definition great_circle_km :: "real \<Rightarrow> coord \<Rightarrow> coord \<Rightarrow> real" where
  "great_circle_km R p q =
     2 * R * arcsin (sqrt ((sin ((radians (fst q) - radians (fst p)) / 2))\<^sup>2
                           + cos (radians (fst p)) * cos (radians (fst q))
                             * (sin ((radians (snd q) - radians (snd p)) / 2))\<^sup>2))"

text \<open>
  The elapsed time of a route, first departure to last arrival, as \<^verbatim>\<open>generate_summary\<close>
  takes it (lines 270-271 and 278), in minutes.
\<close>

definition elapsed_minutes :: "leg list \<Rightarrow> real" where
  "elapsed_minutes r = leg_arrive (last r) - leg_depart (hd r)"

text \<open>The quantity delivered to a city by the legs of a route, and by a whole plan.\<close>

definition delivered_to :: "string \<Rightarrow> leg list \<Rightarrow> real" where
  "delivered_to c r = sum_list (map leg_deliver (filter (\<lambda>l. leg_to l = c) r))"

definition plan_delivered_to :: "string \<Rightarrow> (nat \<times> leg list) list \<Rightarrow> real" where
  "plan_delivered_to c solution = sum_list (map (\<lambda>p. delivered_to c (snd p)) solution)"

text \<open>
  The quantity delivered on the delivery legs at the end of a route, since its last leg
  that delivers nothing (a refill or return leg; a delivery leg always delivers a
  positive quantity).
\<close>

definition load_since_refill :: "leg list \<Rightarrow> real" where
  "load_since_refill r =
     fold (\<lambda>l acc. if leg_deliver l = 0 then 0 else acc + leg_deliver l) r 0"

text \<open>
  The states a simulation passes through from \<open>s0\<close>: each pass through the body of the
  while loop, entered for some city whose remaining quantity is positive, that does not
  break or raise.
\<close>

inductive reachable ::
  "string list \<Rightarrow> real list list \<Rightarrow> string \<Rightarrow> real \<Rightarrow> sim_state \<Rightarrow> sim_state \<Rightarrow> bool"
  for cities distance_matrix depot vehicle_capacity s0 where
  start: "reachable cities distance_matrix depot vehicle_capacity s0 s0"
| pass: "reachable cities distance_matrix depot vehicle_capacity s0 s
         \<Longrightarrow> remaining_of (demands s) city = Inr remaining
         \<Longrightarrow> remaining > 0
         \<Longrightarrow> while_body cities distance_matrix depot vehicle_capacity city s = Inr (Continue s')
         \<Longrightarrow> reachable cities distance_matrix depot vehicle_capacity s0 s'"

text \<open>
  A set of quantities on which the double subtraction of the engine is exact: the
  difference of two of its members, the smaller one positive, is again a member and is
  not rounded.
\<close>

definition exact_grid :: "real set \<Rightarrow> bool" where
  "exact_grid Q \<longleftrightarrow>
     (\<forall>a\<in>Q. \<forall>b\<in>Q. 0 < b \<and> b \<le> a \<longrightarrow> fsub a b = a - b \<and> a - b \<in> Q)"

text \<open>The whole numbers from 0 to \<open>2 ^ 53\<close>, such a set.\<close>

definition whole_quantities :: "real set" where
  "whole_quantities = {x. x \<in> \<int> \<and> 0 \<le> x \<and> x \<le> 2 ^ 53}"

text \<open>A state all of whose quantities, and the declared capacity, lie in \<open>Q\<close>.\<close>

definition on_grid :: "real set \<Rightarrow> real \<Rightarrow> sim_state \<Rightarrow> bool" where
  "on_grid Q vehicle_capacity s \<longleftrightarrow>
     vehicle_capacity \<in> Q \<and> capacity s \<in> Q \<and> (\<forall>p\<in>set (demands s). snd p \<in> Q)"

section \<open>Double arithmetic\<close>

text \<open>
  Rounding never leaves the interval between zero and a double above its argument, its
  results are doubles, and it leaves the whole numbers below \<open>2 ^ 53\<close> as they are.
\<close>

lemma round_half_even_of_int [simp]: "round_half_even (of_int n) = n"
  by (simp add: round_half_even_def)

lemma round_half_even_le: "y \<le> of_int m \<Longrightarrow> round_half_even y \<le> m"
proof -
  assume y: "y \<le> of_int m"
  then have fl: "\<lfloor>y\<rfloor> \<le> m" by (simp add: floor_le_iff)
  show ?thesis
  proof (cases "\<lfloor>y\<rfloor> = m")
    case True
    with y have "y = of_int m"
      using of_int_floor_le[of y] by linarith
    then show ?thesis by simp
  next
    case False
    with fl have "\<lfloor>y\<rfloor> + 1 \<le> m" by simp
    then show ?thesis by (auto simp: round_half_even_def)
  qed
qed

lemma round_half_even_ge: "of_int m \<le> y \<Longrightarrow> m \<le> round_half_even y"
proof -
  assume "of_int m \<le> y"
  then have "m \<le> \<lfloor>y\<rfloor>" by (simp add: le_floor_iff)
  then show ?thesis by (auto simp: round_half_even_def)
qed

lemma ulp_pos [simp]: "0 < ulp x"
  by (simp add: ulp_def)

lemma ulp_nonneg [simp]: "0 \<le> ulp x"
  by (simp add: ulp_def)

lemma ulp_neq_0 [simp]: "ulp x \<noteq> 0"
  by (simp add: ulp_def)

lemma expo_ge [simp]: "- 1022 \<le> expo x"
  by (simp add: expo_def)

lemma expo_mono: "0 < x \<Longrightarrow> x \<le> a \<Longrightarrow> expo x \<le> expo a"
proof -
  assume "0 < x" "x \<le> a"
  then have "log 2 \<bar>x\<bar> \<le> log 2 \<bar>a\<bar>" by simp
  then have "\<lfloor>log 2 \<bar>x\<bar>\<rfloor> \<le> \<lfloor>log 2 \<bar>a\<bar>\<rfloor>" by (rule floor_mono)
  then show ?thesis by (simp add: expo_def)
qed

lemma below_next_binade: "0 < x \<Longrightarrow> x < 2 powr real_of_int (expo x + 1)"
proof -
  assume x: "0 < x"
  have "log 2 x < real_of_int (\<lfloor>log 2 x\<rfloor> + 1)" by linarith
  also have "\<dots> \<le> real_of_int (expo x + 1)" using x by (simp add: expo_def)
  finally have "2 powr log 2 x < 2 powr real_of_int (expo x + 1)"
    by (simp only: powr_less_cancel_iff one_less_numeral_iff semiring_norm)
  with x show ?thesis by simp
qed

lemma above_binade: "0 < x \<Longrightarrow> - 1022 < expo x \<Longrightarrow> 2 powr real_of_int (expo x) \<le> x"
proof -
  assume x: "0 < x" and e: "- 1022 < expo x"
  then have "expo x = \<lfloor>log 2 x\<rfloor>" by (simp add: expo_def max_def split: if_splits)
  then have "real_of_int (expo x) \<le> log 2 x" by simp
  then have "2 powr real_of_int (expo x) \<le> 2 powr log 2 x"
    by (simp only: powr_le_cancel_iff one_less_numeral_iff semiring_norm)
  with x show ?thesis by simp
qed

lemma expo_eqI:
  assumes "0 < y" and "- 1022 \<le> e" and "y < 2 powr real_of_int (e + 1)"
    and "e = - 1022 \<or> 2 powr real_of_int e \<le> y"
  shows "expo y = e"
proof -
  have "log 2 y < real_of_int (e + 1)"
    using assms(1,3) by (simp add: log_less_iff)
  then have up: "\<lfloor>log 2 y\<rfloor> \<le> e" by (simp add: floor_le_iff)
  from assms(4) show ?thesis
  proof
    assume "e = - 1022"
    with up assms(1) show ?thesis by (simp add: expo_def)
  next
    assume "2 powr real_of_int e \<le> y"
    then have "real_of_int e \<le> log 2 y" using assms(1) by (simp add: le_log_iff)
    then have "e \<le> \<lfloor>log 2 y\<rfloor>" by (simp add: le_floor_iff)
    with up assms(1,2) show ?thesis by (simp add: expo_def)
  qed
qed

lemma powr_shift: "2 powr (a::real) * 2 ^ k = 2 powr (a + real k)"
  by (simp add: powr_add powr_realpow)

lemma round_double_nonneg: "0 \<le> x \<Longrightarrow> 0 \<le> round_double x"
proof -
  assume "0 \<le> x"
  then have "of_int 0 \<le> x / ulp x" by simp
  then have "0 \<le> round_half_even (x / ulp x)" by (rule round_half_even_ge)
  then show ?thesis by (simp add: round_double_def)
qed

lemma round_double_exact: "x / ulp x = of_int n \<Longrightarrow> round_double x = x"
proof -
  assume a: "x / ulp x = of_int n"
  then have "x = ulp x * of_int n"
    by (simp add: field_simps)
  with a show ?thesis by (simp add: round_double_def)
qed

lemma is_double_0 [simp]: "is_double 0"
  by (simp add: is_double_def round_double_def)

lemma round_double_0 [simp]: "round_double 0 = 0"
  by (simp add: round_double_def)

lemma is_double_multiple: "is_double a \<Longrightarrow> \<exists>n. a = ulp a * of_int n"
proof -
  assume "is_double a"
  then have "a = round_double a" by (simp add: is_double_def)
  then show ?thesis
    by (cases "a = 0") (auto simp: round_double_def intro: exI[of _ 0])
qed

lemma round_double_le:
  assumes "0 < x" and "x \<le> a" and "is_double a"
  shows "round_double x \<le> a"
proof -
  from is_double_multiple[OF assms(3)] obtain n where a: "a = ulp a * of_int n" ..
  have e: "expo x \<le> expo a" using assms(1,2) by (rule expo_mono)
  have "ulp a = ulp x * 2 powr real_of_int (expo a - expo x)"
    by (simp add: ulp_def flip: powr_add)
  also have "2 powr real_of_int (expo a - expo x) = 2 ^ nat (expo a - expo x)"
    using e powr_realpow[of 2 "nat (expo a - expo x)"] by simp
  also have "\<dots> = of_int (2 ^ nat (expo a - expo x))" by simp
  finally have "a = ulp x * of_int (2 ^ nat (expo a - expo x) * n)"
    using a by (simp add: mult.assoc)
  then obtain m where m: "a = ulp x * of_int m" ..
  then have "a / ulp x = of_int m" by (simp add: field_simps)
  moreover have "x / ulp x \<le> a / ulp x" using assms(2) by (simp add: divide_right_mono)
  ultimately have "x / ulp x \<le> of_int m" by simp
  then have "round_half_even (x / ulp x) \<le> m" by (rule round_half_even_le)
  then have "ulp x * of_int (round_half_even (x / ulp x)) \<le> ulp x * of_int m"
    by (simp add: mult_left_mono)
  with m assms(1) show ?thesis by (simp add: round_double_def)
qed

lemma is_double_round_double:
  assumes "0 \<le> x"
  shows "is_double (round_double x)"
proof (cases "x = 0")
  case True
  then show ?thesis by simp
next
  case False
  with assms have x: "0 < x" by simp
  define e where "e = expo x"
  define n where "n = round_half_even (x / ulp x)"
  define y where "y = round_double x"
  have y: "y = ulp x * of_int n" using False by (simp add: y_def n_def round_double_def)
  have u: "ulp x = 2 powr real_of_int (e - 52)" by (simp add: ulp_def e_def)
  have e: "- 1022 \<le> e" by (simp add: e_def)
  have "x / ulp x < 2 powr real_of_int (e + 1) / 2 powr real_of_int (e - 52)"
    using below_next_binade[OF x] by (simp add: u e_def divide_strict_right_mono)
  also have "\<dots> = 2 powr 53" by (simp flip: powr_diff)
  also have "\<dots> = of_int (2 ^ 53)" by simp
  finally have "x / ulp x \<le> of_int (2 ^ 53)" by simp
  then have n_le: "n \<le> 2 ^ 53" unfolding n_def by (rule round_half_even_le)
  have "of_int 0 \<le> x / ulp x" using x by simp
  then have n_ge: "0 \<le> n" unfolding n_def by (rule round_half_even_ge)
  have top: "ulp x * of_int (2 ^ 53) = 2 powr real_of_int (e + 1)"
  proof -
    have "ulp x * of_int (2 ^ 53) = 2 powr real_of_int (e - 52) * 2 ^ 53"
      by (simp only: u of_int_power of_int_numeral)
    also have "\<dots> = 2 powr (real_of_int (e - 52) + real 53)" by (rule powr_shift)
    also have "\<dots> = 2 powr real_of_int (e + 1)" by (simp add: add.commute)
    finally show ?thesis .
  qed
  show ?thesis
  proof (cases "n = 0")
    case True
    with y show ?thesis by (simp add: y_def[symmetric])
  next
    case n0: False
    with n_ge have ypos: "0 < y" by (simp add: y)
    show ?thesis
    proof (cases "n = 2 ^ 53")
      case True
      with y top have yt: "y = 2 powr real_of_int (e + 1)" by simp
      have "expo y = e + 1"
      proof (rule expo_eqI[OF ypos])
        show "- 1022 \<le> e + 1" using e by simp
        show "y < 2 powr real_of_int (e + 1 + 1)" by (simp add: yt)
        show "e + 1 = - 1022 \<or> 2 powr real_of_int (e + 1) \<le> y" by (simp add: yt)
      qed
      then have "ulp y = 2 powr real_of_int (e + 1 - 52)" by (simp add: ulp_def)
      then have "y / ulp y = 2 powr 52" by (simp add: yt flip: powr_diff)
      also have "\<dots> = of_int (2 ^ 52)" by simp
      finally have "round_double y = y" by (rule round_double_exact)
      then show ?thesis by (simp add: is_double_def y_def[symmetric])
    next
      case False
      with n_le have "n < 2 ^ 53" by simp
      then have "ulp x * of_int n < ulp x * of_int (2 ^ 53)"
        by (simp only: mult_less_cancel_left_pos[OF ulp_pos] of_int_less_iff)
      with y top have ylt: "y < 2 powr real_of_int (e + 1)" by simp
      have "expo y = e"
      proof (rule expo_eqI[OF ypos e ylt])
        show "e = - 1022 \<or> 2 powr real_of_int e \<le> y"
        proof (cases "e = - 1022")
          case True
          then show ?thesis ..
        next
          case False
          with e have "- 1022 < e" by linarith
          then have "- 1022 < expo x" by (simp only: e_def)
          from above_binade[OF x this] have "2 powr real_of_int e / ulp x \<le> x / ulp x"
            by (simp add: e_def divide_right_mono)
          moreover have "2 powr real_of_int e / ulp x = 2 powr 52"
            by (simp add: u flip: powr_diff)
          moreover have "(2::real) powr 52 = of_int (2 ^ 52)" by simp
          ultimately have "of_int (2 ^ 52) \<le> x / ulp x" by simp
          then have "2 ^ 52 \<le> n" unfolding n_def by (rule round_half_even_ge)
          then have "ulp x * of_int (2 ^ 52) \<le> ulp x * of_int n"
            by (simp only: mult_le_cancel_left_pos[OF ulp_pos] of_int_le_iff)
          moreover have "ulp x * of_int (2 ^ 52) = 2 powr real_of_int e"
          proof -
            have "ulp x * of_int (2 ^ 52) = 2 powr real_of_int (e - 52) * 2 ^ 52"
              by (simp only: u of_int_power of_int_numeral)
            also have "\<dots> = 2 powr (real_of_int (e - 52) + real 52)" by (rule powr_shift)
            also have "\<dots> = 2 powr real_of_int e" by simp
            finally show ?thesis .
          qed
          ultimately have "2 powr real_of_int e \<le> y" by (simp only: y)
          then show ?thesis ..
        qed
      qed
      then have "ulp y = ulp x" by (simp add: ulp_def e_def)
      with y have "y / ulp y = of_int n" by simp
      then have "round_double y = y" by (rule round_double_exact)
      then show ?thesis by (simp add: is_double_def y_def[symmetric])
    qed
  qed
qed


lemma fsub_self [simp]: "fsub a a = 0"
  by (simp add: fsub_def)


lemma fsub_bounds:
  assumes "0 < b" and "b \<le> a" and "is_double a"
  shows "0 \<le> fsub a b \<and> fsub a b \<le> a \<and> is_double (fsub a b)"
proof -
  have nn: "0 \<le> a - b" using assms(2) by simp
  have "fsub a b \<le> a"
  proof (cases "a - b = 0")
    case True
    with assms(1,2) show ?thesis by (simp add: fsub_def)
  next
    case False
    with nn have "0 < a - b" by simp
    moreover have "a - b \<le> a" using assms(1) by simp
    ultimately show ?thesis unfolding fsub_def using assms(3) by (rule round_double_le)
  qed
  with nn show ?thesis
    by (simp add: fsub_def round_double_nonneg is_double_round_double)
qed

lemma round_double_whole:
  assumes "x \<in> \<int>" and "0 \<le> x" and "x < 2 ^ 53"
  shows "round_double x = x"
proof (cases "x = 0")
  case True
  then show ?thesis by simp
next
  case False
  with assms(2) have x: "0 < x" by simp
  from assms(1) obtain n where n: "x = of_int n" by (auto elim: Ints_cases)
  have "x < 2 powr 53" using assms(3) by simp
  then have "log 2 x < 53" using x by (simp add: log_less_iff)
  then have "\<lfloor>log 2 x\<rfloor> \<le> 52" by (simp add: floor_le_iff)
  then have e: "expo x \<le> 52" using x by (simp add: expo_def)
  have "x / ulp x = x * 2 powr real_of_int (52 - expo x)"
    by (simp add: ulp_def powr_diff field_simps)
  also have "2 powr real_of_int (52 - expo x) = 2 ^ nat (52 - expo x)"
    using e powr_realpow[of 2 "nat (52 - expo x)"] by simp
  also have "x * 2 ^ nat (52 - expo x) = of_int (n * 2 ^ nat (52 - expo x))"
    by (simp add: n)
  finally show ?thesis by (rule round_double_exact)
qed

lemma is_double_whole: "x \<in> whole_quantities \<Longrightarrow> is_double x"
proof -
  assume a: "x \<in> whole_quantities"
  show ?thesis
  proof (cases "x = 2 ^ 53")
    case True
    have "expo x = 53"
      unfolding True
      by (rule expo_eqI) (simp_all add: powr_realpow[of 2 53, simplified] powr_realpow[of 2 54, simplified])
    then have "x / ulp x = of_int (2 ^ 52)"
      by (simp add: True ulp_def)
    then show ?thesis unfolding is_double_def by (rule round_double_exact)
  next
    case False
    with a show ?thesis
      by (simp add: whole_quantities_def is_double_def round_double_whole)
  qed
qed

lemma exact_grid_whole: "exact_grid whole_quantities"
  unfolding exact_grid_def
proof (intro ballI impI)
  fix a b assume a: "a \<in> whole_quantities" and b: "b \<in> whole_quantities"
    and ab: "0 < b \<and> b \<le> a"
  from a b have i: "a - b \<in> \<int>" by (simp add: whole_quantities_def)
  from a b ab have r: "0 \<le> a - b" "a - b < 2 ^ 53" by (simp_all add: whole_quantities_def)
  from i r have "fsub a b = a - b" unfolding fsub_def by (rule round_double_whole)
  with i r show "fsub a b = a - b \<and> a - b \<in> whole_quantities"
    by (simp add: whole_quantities_def)
qed

lemma fsub_whole:
  "a \<in> \<int> \<Longrightarrow> b \<in> \<int> \<Longrightarrow> 0 \<le> a - b \<Longrightarrow> a - b < 9007199254740992
   \<Longrightarrow> fsub a b = a - b"
  unfolding fsub_def by (rule round_double_whole) simp_all

text \<open>
  An absorbed subtraction: \<open>2 ^ 55\<close> times the difference is \<open>2 ^ 55 - 1\<close>, which lies
  three quarters of the way from the double below 1 to 1.
\<close>

lemma fsub_absorbed: "fsub 1 (1 / 36028797018963968) = 1"
proof -
  define x :: real where "x = 36028797018963967 / 36028797018963968"
  have e: "expo x = - 1"
    by (rule expo_eqI) (simp_all add: x_def powr_neg_one)
  have "(2::real) powr real_of_int (- 1 - 52) = 1 / 2 ^ 53"
    using powr_realpow[of 2 53] by (simp add: powr_minus_divide)
  then have u: "ulp x = 1 / 9007199254740992"
    by (simp add: ulp_def e)
  have q: "x / ulp x = 36028797018963967 / 4"
    by (simp add: u) (simp add: x_def)
  have r: "round_half_even (36028797018963967 / 4) = 9007199254740992"
    by (simp add: round_half_even_def)
  have "x \<noteq> 0" by (simp add: x_def)
  then have "round_double x = 1"
    by (simp add: round_double_def q r) (simp add: u)
  moreover have "fsub 1 (1 / 36028797018963968) = round_double x"
    by (simp add: fsub_def x_def)
  ultimately show ?thesis by simp
qed

section \<open>Basic facts\<close>

lemma bindE_Inl [simp]: "bindE (Inl e) f = Inl e"
  by (simp add: bindE_def)

lemma bindE_Inr [simp]: "bindE (Inr x) f = f x"
  by (simp add: bindE_def)

lemma bindE_eq_Inr: "bindE m f = Inr y \<longleftrightarrow> (\<exists>x. m = Inr x \<and> f x = Inr y)"
  by (cases m) simp_all

lemma remaining_of_update_same [simp]:
  "remaining_of (AList.update city x dems) city = Inr x"
  by (simp add: remaining_of_def update_conv')

lemma remaining_of_update_other [simp]:
  "c \<noteq> city \<Longrightarrow> remaining_of (AList.update city x dems) c = remaining_of dems c"
  by (simp add: remaining_of_def update_conv')

lemma remaining_of_Nil: "remaining_of [] c = Inl KeyError"
  by (simp add: remaining_of_def)


lemma travel_time_dist:
  "travel_time_minutes cities dm a b =
     bindE (dist_between cities dm a b) (\<lambda>d. Inr ((d / 60) * 60))"
  by (simp add: travel_time_minutes_def dist_between_def SPEED_KMPH_def split: option.splits)

section \<open>The delivery step\<close>



section \<open>Refill or abandon\<close>

text \<open>
  Claim C4. A pass through the while body with no remaining capacity, for a city whose
  remaining quantity is positive, with \<open>t_back\<close> the travel time from the current location
  to the depot and \<open>t_direct\<close> the travel time from the depot to the city. If
  \<open>t_back + t_direct \<le> t_direct\<close> it appends a leg to the depot that delivers nothing and
  unloads nothing, advances the time cursor by \<open>t_back\<close> only, puts the vehicle at the
  depot with its full declared capacity, and the loop goes on for the same city.
  Otherwise it breaks: the loop for this city ends in the unchanged state (so with the
  city's remaining quantity unchanged) and the for loop goes on with the next city.
\<close>

theorem refill_or_abandon:
  assumes "capacity st \<le> 0"
    and "remaining_of (demands st) city = Inr remaining"
    and "remaining > 0"
    and "travel_time_minutes cities dm (location st) depot = Inr t_back"
    and "travel_time_minutes cities dm depot city = Inr t_direct"
  shows "(t_back + t_direct \<le> t_direct \<longrightarrow>
           (\<exists>km st'. dist_between cities dm (location st) depot = Inr km
              \<and> st' = st\<lparr>route := route st @
                   [\<lparr>leg_from = location st, leg_to = depot, leg_depart = time_var st,
                     leg_arrive = time_var st + t_back, leg_deliver = 0, leg_unload = 0,
                     leg_distance = km\<rparr>],
                   time_var := time_var st + t_back, location := depot, capacity := vcap\<rparr>
              \<and> while_body cities dm depot vcap city st = Inr (Continue st')
              \<and> city_loop cities dm depot vcap city st
                  = city_loop cities dm depot vcap city st'))
       \<and> (\<not> t_back + t_direct \<le> t_direct \<longrightarrow>
            while_body cities dm depot vcap city st = Inr Break
          \<and> city_loop cities dm depot vcap city st = Some (Inr st)
          \<and> for_cities cities dm depot vcap (city # rest) st
              = for_cities cities dm depot vcap rest st)"
proof -
  from assms(4) obtain km where d: "dist_between cities dm (location st) depot = Inr km"
    by (auto simp: travel_time_dist bindE_eq_Inr)
  have wb: "while_body cities dm depot vcap city st =
      (if t_back + t_direct \<le> t_direct then
         Inr (Continue (st\<lparr>route := route st @
                   [\<lparr>leg_from = location st, leg_to = depot, leg_depart = time_var st,
                     leg_arrive = time_var st + t_back, leg_deliver = 0, leg_unload = 0,
                     leg_distance = km\<rparr>],
                   time_var := time_var st + t_back, location := depot, capacity := vcap\<rparr>))
       else Inr Break)"
    using assms d by (simp add: while_body_def refill_or_break_def Let_def)
  have cl: "city_loop cities dm depot vcap city st =
      (case while_body cities dm depot vcap city st of
         Inl e \<Rightarrow> Some (Inl e)
       | Inr Break \<Rightarrow> Some (Inr st)
       | Inr (Continue st') \<Rightarrow> city_loop cities dm depot vcap city st')"
    using assms(2,3) by (subst city_loop.simps) simp
  show ?thesis
    using d by (simp add: cl wb)
qed

theorem refill_or_abandon_witness:
  "(while_body [''S'', ''A''] [[0, 60], [60, 0]] ''S'' 10 ''A''
      \<lparr>time_var = 63, location = ''A'', capacity = 0, route = [], demands = [(''A'', 15)]\<rparr>
      = Inr Break
    \<and> city_loop [''S'', ''A''] [[0, 60], [60, 0]] ''S'' 10 ''A''
      \<lparr>time_var = 63, location = ''A'', capacity = 0, route = [], demands = [(''A'', 15)]\<rparr>
      = Some (Inr \<lparr>time_var = 63, location = ''A'', capacity = 0, route = [],
                    demands = [(''A'', 15)]\<rparr>))
   \<and> while_body [''S'', ''A''] [[0, 60], [0, 0]] ''S'' 10 ''A''
      \<lparr>time_var = 63, location = ''A'', capacity = 0, route = [], demands = [(''A'', 15)]\<rparr>
      = Inr (Continue \<lparr>time_var = 63, location = ''S'', capacity = 10,
             route = [\<lparr>leg_from = ''A'', leg_to = ''S'', leg_depart = 63, leg_arrive = 63,
                       leg_deliver = 0, leg_unload = 0, leg_distance = 0\<rparr>],
             demands = [(''A'', 15)]\<rparr>)"
  using refill_or_abandon
    [where st = "\<lparr>time_var = 63, location = ''A'', capacity = 0, route = [],
                  demands = [(''A'', 15)]\<rparr>"
       and city = "''A''" and remaining = 15 and cities = "[''S'', ''A'']"
       and dm = "[[0, 60], [60, 0]]" and t_back = 60 and t_direct = 60 and depot = "''S''"
       and vcap = 10 and rest = "[]"]
    refill_or_abandon
    [where st = "\<lparr>time_var = 63, location = ''A'', capacity = 0, route = [],
                  demands = [(''A'', 15)]\<rparr>"
       and city = "''A''" and remaining = 15 and cities = "[''S'', ''A'']"
       and dm = "[[0, 60], [0, 0]]" and t_back = 0 and t_direct = 60 and depot = "''S''"
       and vcap = 10 and rest = "[]"]
  by (simp add: remaining_of_def travel_time_minutes_def dist_between_def matrix_at_def
        SPEED_KMPH_def)

section \<open>The fallback estimator\<close>

text \<open>
  Claim C8. The fallback estimator is a function of its two coordinate pairs alone (the
  source reads nothing else and has no effect, so the model is a HOL function of them),
  and for every pair of coordinates it returns \<open>(d * 1.3, (d * 1.3 / 50) * 60)\<close>, where
  \<open>d\<close> is the great-circle distance of the haversine formula with radius 6371.
\<close>

theorem haversine_distance_formula:
  "haversine_distance c1 c2 =
     (great_circle_km 6371 c1 c2 * 1.3, (great_circle_km 6371 c1 c2 * 1.3 / 50) * 60)"
  by (cases c1; cases c2) (simp add: haversine_distance_def great_circle_km_def Let_def)

section \<open>Scenarios\<close>

text \<open>
  Unfolding these evaluates the simulation on concrete inputs whose quantities are whole
  numbers.
\<close>

lemmas sim_defs =
  simulate_vehicle_def initial_state_def
  city_loop.simps while_body_def deliver_step_def refill_or_break_def close_route_def
  remaining_of_def travel_time_minutes_def dist_between_def matrix_at_def
  SPEED_KMPH_def UNLOAD_MIN_PER_100KG_def Let_def fsub_whole

lemma arcsin_sqrt_sin2:
  assumes "0 \<le> x" "x \<le> pi / 2"
  shows "arcsin (sqrt ((sin x)\<^sup>2)) = x"
proof -
  have "0 \<le> sin x" using assms by (intro sin_ge_zero) (auto simp: )
  then have "sqrt ((sin x)\<^sup>2) = sin x" by simp
  then show ?thesis using assms by (simp add: arcsin_sin)
qed

lemma great_circle_one_degree:
  "great_circle_km 6371 (0, 0) (0, 1) = 6371 * pi / 180"
proof -
  have "arcsin (sqrt ((sin (pi / 360))\<^sup>2)) = pi / 360"
    by (rule arcsin_sqrt_sin2) (simp_all)
  then show ?thesis
    by (simp add: great_circle_km_def radians_def)
qed

lemma great_circle_one_degree_back:
  "great_circle_km 6371 (0, 1) (0, 0) = 6371 * pi / 180"
proof -
  have "arcsin (sqrt ((sin (pi / 360))\<^sup>2)) = pi / 360"
    by (rule arcsin_sqrt_sin2) (simp_all)
  moreover have "(sin (- (pi / 360)))\<^sup>2 = (sin (pi / 360))\<^sup>2"
    by (simp only: sin_minus power2_minus)
  ultimately show ?thesis
    by (simp add: great_circle_km_def radians_def)
qed

lemma haversine_one_degree:
  "haversine_distance (0, 0) (0, 1) = (6371 * pi / 180 * 1.3, (6371 * pi / 180 * 1.3 / 50) * 60)"
  "haversine_distance (0, 1) (0, 0) = (6371 * pi / 180 * 1.3, (6371 * pi / 180 * 1.3 / 50) * 60)"
  by (simp_all add: haversine_distance_def Let_def great_circle_one_degree[unfolded great_circle_km_def, simplified]
       great_circle_one_degree_back[unfolded great_circle_km_def, simplified])

lemma build_matrix_two:
  "build_matrix est [p, q] = [[0, fst (est p q)], [fst (est q p), 0]]"
  by (simp add: build_matrix_def upt_rec)

lemma two_city_run:
  "run_vrptw [\<lparr>vid = i, vcapacity = 1000, vstart = Some ts\<rparr>]
             [\<lparr>d_city = ''D'', d_demand = 50, tw_start = a, tw_end = b\<rparr>]
             [''S'', ''D''] [[0, k], [k', 0]] ''S''
   = Some (Inr [(i, [
       \<lparr>leg_from = ''S'', leg_to = ''D'', leg_depart = ts, leg_arrive = ts + k,
         leg_deliver = 50, leg_unload = 15, leg_distance = k\<rparr>,
       \<lparr>leg_from = ''D'', leg_to = ''S'', leg_depart = ts + k + 15,
         leg_arrive = ts + k + 15 + k', leg_deliver = 0, leg_unload = 0,
         leg_distance = k'\<rparr>])])"
  by (simp add: run_vrptw_def demands_copy_def sim_defs)

text \<open>
  Claim C5, as amended. Fallback-only scenario: supply at (0, 0), one demand of 50 at
  (0, 1 degree), one vehicle of capacity 1000 starting at \<open>ts\<close>, the matrix built by
  the fallback estimator. The plan has exactly two legs, depot to demand delivering 50
  and demand back to depot; the distance of each leg is the great-circle distance from
  (0, 0) to (0, 1 degree) times 1.3; and the elapsed time from first departure to last
  arrival is the travel time of both legs at the engine's 60 km/h plus 15 minutes of
  unload.
\<close>

theorem fallback_scenario:
  "run_vrptw [\<lparr>vid = 1, vcapacity = 1000, vstart = Some ts\<rparr>]
             [\<lparr>d_city = ''D'', d_demand = 50, tw_start = a, tw_end = b\<rparr>]
             [''S'', ''D''] (build_matrix haversine_distance [(0, 0), (0, 1)]) ''S''
   = Some (Inr [(1, [
       \<lparr>leg_from = ''S'', leg_to = ''D'', leg_depart = ts,
         leg_arrive = ts + great_circle_km 6371 (0, 0) (0, 1) * 1.3,
         leg_deliver = 50, leg_unload = 15,
         leg_distance = great_circle_km 6371 (0, 0) (0, 1) * 1.3\<rparr>,
       \<lparr>leg_from = ''D'', leg_to = ''S'',
         leg_depart = ts + great_circle_km 6371 (0, 0) (0, 1) * 1.3 + 15,
         leg_arrive = ts + great_circle_km 6371 (0, 0) (0, 1) * 1.3 + 15
                      + great_circle_km 6371 (0, 0) (0, 1) * 1.3,
         leg_deliver = 0, leg_unload = 0,
         leg_distance = great_circle_km 6371 (0, 0) (0, 1) * 1.3\<rparr>])])
   \<and> elapsed_minutes [
       \<lparr>leg_from = ''S'', leg_to = ''D'', leg_depart = ts,
         leg_arrive = ts + great_circle_km 6371 (0, 0) (0, 1) * 1.3,
         leg_deliver = 50, leg_unload = 15,
         leg_distance = great_circle_km 6371 (0, 0) (0, 1) * 1.3\<rparr>,
       \<lparr>leg_from = ''D'', leg_to = ''S'',
         leg_depart = ts + great_circle_km 6371 (0, 0) (0, 1) * 1.3 + 15,
         leg_arrive = ts + great_circle_km 6371 (0, 0) (0, 1) * 1.3 + 15
                      + great_circle_km 6371 (0, 0) (0, 1) * 1.3,
         leg_deliver = 0, leg_unload = 0,
         leg_distance = great_circle_km 6371 (0, 0) (0, 1) * 1.3\<rparr>]
     = 2 * ((great_circle_km 6371 (0, 0) (0, 1) * 1.3 / 60) * 60) + 15"
  by (simp add: build_matrix_two haversine_one_degree two_city_run great_circle_one_degree
        elapsed_minutes_def)

text \<open>
  The claim as stated fails: the elapsed time of the plan is not the sum of the two
  durations that the fallback estimator derives at 50 km/h plus 15 minutes. The engine
  reads only the distance from the matrix and divides by its own 60 km/h.
\<close>

theorem fallback_scenario_counterexample:
  "map_option (map_sum id (map (\<lambda>p. elapsed_minutes (snd p))))
     (run_vrptw [\<lparr>vid = 1, vcapacity = 1000, vstart = Some 0\<rparr>]
                [\<lparr>d_city = ''D'', d_demand = 50, tw_start = ''09:00'', tw_end = ''17:00''\<rparr>]
                [''S'', ''D''] (build_matrix haversine_distance [(0, 0), (0, 1)]) ''S'')
   \<noteq> Some (Inr [snd (haversine_distance (0, 0) (0, 1))
                 + snd (haversine_distance (0, 1) (0, 0)) + 15])"
  by (simp add: build_matrix_two haversine_one_degree two_city_run elapsed_minutes_def)


text \<open>
  Claim C6, as amended. Refill scenario: one demand of 1000 at city D, a vehicle of
  capacity 10, any matrix over depot S and city D with \<open>k\<close> the distance from S to D and
  \<open>k'\<close> the distance from D to S. Once the vehicle stands at D with no capacity left,
  the round trip via the depot costs \<open>k' + k\<close> against \<open>k\<close> for the direct trip, so the
  engine refills only if \<open>k' \<le> 0\<close> and breaks otherwise. Whenever \<open>0 < k'\<close> the
  vehicle delivers 10 once, abandons the city, returns to the depot, and the remaining
  990 is the quantity with which the loop goes on to the next vehicle.
\<close>

theorem refill_scenario:
  "refill_or_break [''S'', ''D''] [[a, k], [k', b]] ''S'' 10 ''D''
      \<lparr>time_var = tc, location = ''D'', capacity = 0, route = rt, demands = [(''D'', 990)]\<rparr>
    = (if k' + k \<le> k
       then Inr (Continue
              \<lparr>time_var = tc + k', location = ''S'', capacity = 10,
               route = rt @ [\<lparr>leg_from = ''D'', leg_to = ''S'', leg_depart = tc,
                               leg_arrive = tc + k', leg_deliver = 0, leg_unload = 0,
                               leg_distance = k'\<rparr>],
               demands = [(''D'', 990)]\<rparr>)
       else Inr Break)
   \<and> (0 < k' \<longrightarrow>
        simulate_vehicle [''S'', ''D''] [[a, k], [k', b]] ''S''
           \<lparr>vid = i, vcapacity = 10, vstart = Some ts\<rparr> [(''D'', 1000)]
         = Some (Inr ([\<lparr>leg_from = ''S'', leg_to = ''D'', leg_depart = ts,
                         leg_arrive = ts + k, leg_deliver = 10, leg_unload = 3,
                         leg_distance = k\<rparr>,
                       \<lparr>leg_from = ''D'', leg_to = ''S'', leg_depart = ts + k + 3,
                         leg_arrive = ts + k + 3 + k', leg_deliver = 0, leg_unload = 0,
                         leg_distance = k'\<rparr>], [(''D'', 990)]))
      \<and> for_vehicles [''S'', ''D''] [[a, k], [k', b]] ''S''
           (\<lparr>vid = i, vcapacity = 10, vstart = Some ts\<rparr> # vs) sol [(''D'', 1000)]
         = for_vehicles [''S'', ''D''] [[a, k], [k', b]] ''S'' vs
             (AList.update i
                [\<lparr>leg_from = ''S'', leg_to = ''D'', leg_depart = ts,
                   leg_arrive = ts + k, leg_deliver = 10, leg_unload = 3,
                   leg_distance = k\<rparr>,
                 \<lparr>leg_from = ''D'', leg_to = ''S'', leg_depart = ts + k + 3,
                   leg_arrive = ts + k + 3 + k', leg_deliver = 0, leg_unload = 0,
                   leg_distance = k'\<rparr>] sol)
             [(''D'', 990)])"
proof -
  have v: "0 < k' \<Longrightarrow> simulate_vehicle [''S'', ''D''] [[a, k], [k', b]] ''S''
           \<lparr>vid = i, vcapacity = 10, vstart = Some ts\<rparr> [(''D'', 1000)]
         = Some (Inr ([\<lparr>leg_from = ''S'', leg_to = ''D'', leg_depart = ts,
                         leg_arrive = ts + k, leg_deliver = 10, leg_unload = 3,
                         leg_distance = k\<rparr>,
                       \<lparr>leg_from = ''D'', leg_to = ''S'', leg_depart = ts + k + 3,
                         leg_arrive = ts + k + 3 + k', leg_deliver = 0, leg_unload = 0,
                         leg_distance = k'\<rparr>], [(''D'', 990)]))"
    by (simp add: sim_defs)
  have b: "refill_or_break [''S'', ''D''] [[a, k], [k', b]] ''S'' 10 ''D''
      \<lparr>time_var = tc, location = ''D'', capacity = 0, route = rt, demands = [(''D'', 990)]\<rparr>
    = (if k' + k \<le> k
       then Inr (Continue
              \<lparr>time_var = tc + k', location = ''S'', capacity = 10,
               route = rt @ [\<lparr>leg_from = ''D'', leg_to = ''S'', leg_depart = tc,
                               leg_arrive = tc + k', leg_deliver = 0, leg_unload = 0,
                               leg_distance = k'\<rparr>],
               demands = [(''D'', 990)]\<rparr>)
       else Inr Break)"
    by (simp add: sim_defs)
  show ?thesis
    using v by (simp add: b)
qed

theorem refill_scenario_witness:
  "(0::real) < 60
   \<and> for_vehicles [''S'', ''D''] [[0, 60], [60, 0]] ''S''
       [\<lparr>vid = 1, vcapacity = 10, vstart = Some 0\<rparr>, \<lparr>vid = 2, vcapacity = 10, vstart = Some 0\<rparr>]
       [] [(''D'', 1000)]
     = for_vehicles [''S'', ''D''] [[0, 60], [60, 0]] ''S''
       [\<lparr>vid = 2, vcapacity = 10, vstart = Some 0\<rparr>]
       [(1, [\<lparr>leg_from = ''S'', leg_to = ''D'', leg_depart = 0, leg_arrive = 60,
               leg_deliver = 10, leg_unload = 3, leg_distance = 60\<rparr>,
             \<lparr>leg_from = ''D'', leg_to = ''S'', leg_depart = 63, leg_arrive = 123,
               leg_deliver = 0, leg_unload = 0, leg_distance = 60\<rparr>])]
       [(''D'', 990)]"
  using refill_scenario [where k' = 60 and k = 60 and a = 0 and b = 0 and i = 1 and ts = 0
      and sol = "[]" and vs = "[\<lparr>vid = 2, vcapacity = 10, vstart = Some 0\<rparr>]"]
  by simp

text \<open>
  The claim as stated fails at distance 60 both ways: after the first delivery the round
  trip costs 120 minutes against 60 for the direct trip, the engine breaks instead of
  refilling, and the run of the single vehicle ends with 990 still to deliver.
\<close>

theorem refill_scenario_counterexample:
  "refill_or_break [''S'', ''D''] [[0, 60], [60, 0]] ''S'' 10 ''D''
      \<lparr>time_var = 63, location = ''D'', capacity = 0,
       route = [\<lparr>leg_from = ''S'', leg_to = ''D'', leg_depart = 0, leg_arrive = 60,
                 leg_deliver = 10, leg_unload = 3, leg_distance = 60\<rparr>],
       demands = [(''D'', 990)]\<rparr>
     = Inr Break
   \<and> travel_time_minutes [''S'', ''D''] [[0, 60], [60, 0]] ''D'' ''S'' = Inr 60
   \<and> travel_time_minutes [''S'', ''D''] [[0, 60], [60, 0]] ''S'' ''D'' = Inr 60
   \<and> for_vehicles [''S'', ''D''] [[0, 60], [60, 0]] ''S''
        [\<lparr>vid = 1, vcapacity = 10, vstart = Some 0\<rparr>] []
        (demands_copy [\<lparr>d_city = ''D'', d_demand = 1000, tw_start = ''09:00'', tw_end = ''17:00''\<rparr>])
     = Some (Inr ([(1, [\<lparr>leg_from = ''S'', leg_to = ''D'', leg_depart = 0, leg_arrive = 60,
               leg_deliver = 10, leg_unload = 3, leg_distance = 60\<rparr>,
             \<lparr>leg_from = ''D'', leg_to = ''S'', leg_depart = 63, leg_arrive = 123,
               leg_deliver = 0, leg_unload = 0, leg_distance = 60\<rparr>])], [(''D'', 990)]))"
  by (simp add: sim_defs demands_copy_def)

section \<open>The loops\<close>

text \<open>
  One unfolding of the while loop in each of its three situations, the two branches of
  its body in closed form, and the link between the loops and \<^const>\<open>reachable\<close>: the
  state in which a loop ends is reachable from the state in which it starts.
\<close>

lemma remaining_of_eq_Inr: "remaining_of dems c = Inr r \<longleftrightarrow> map_of dems c = Some r"
  by (simp add: remaining_of_def split: option.splits)




lemma while_body_deliver:
  assumes "0 < capacity s"
  shows "while_body cities dm depot vcap city s =
     bindE (dist_between cities dm (location s) city) (\<lambda>km.
     bindE (remaining_of (demands s) city) (\<lambda>r.
       Inr (Continue (s\<lparr>route := route s @
                 [\<lparr>leg_from = location s, leg_to = city, leg_depart = time_var s,
                   leg_arrive = time_var s + km, leg_deliver = min (capacity s) r,
                   leg_unload = min (capacity s) r / 100 * 30, leg_distance = km\<rparr>],
              time_var := time_var s + km + min (capacity s) r / 100 * 30,
              demands := AList.update city (fsub r (min (capacity s) r)) (demands s),
              capacity := fsub (capacity s) (min (capacity s) r),
              location := city\<rparr>))))"
  using assms
  by (cases "dist_between cities dm (location s) city"; cases "remaining_of (demands s) city")
     (simp_all add: while_body_def deliver_step_def travel_time_dist UNLOAD_MIN_PER_100KG_def
        Let_def)

lemma while_body_refill:
  assumes "\<not> 0 < capacity s"
  shows "while_body cities dm depot vcap city s =
     bindE (dist_between cities dm (location s) depot) (\<lambda>km.
     bindE (dist_between cities dm depot city) (\<lambda>k2.
       if km + k2 \<le> k2 then
         Inr (Continue (s\<lparr>route := route s @
                 [\<lparr>leg_from = location s, leg_to = depot, leg_depart = time_var s,
                   leg_arrive = time_var s + km, leg_deliver = 0, leg_unload = 0,
                   leg_distance = km\<rparr>],
              time_var := time_var s + km,
              location := depot,
              capacity := vcap\<rparr>))
       else Inr Break))"
  using assms
  by (cases "dist_between cities dm (location s) depot"; cases "dist_between cities dm depot city")
     (simp_all add: while_body_def refill_or_break_def travel_time_dist Let_def)

lemma while_body_Continue_cases:
  assumes "while_body cities dm depot vcap city s = Inr (Continue s')"
  obtains (deliver) r km where "0 < capacity s" "remaining_of (demands s) city = Inr r"
      "s' = s\<lparr>route := route s @
                 [\<lparr>leg_from = location s, leg_to = city, leg_depart = time_var s,
                   leg_arrive = time_var s + km, leg_deliver = min (capacity s) r,
                   leg_unload = min (capacity s) r / 100 * 30, leg_distance = km\<rparr>],
              time_var := time_var s + km + min (capacity s) r / 100 * 30,
              demands := AList.update city (fsub r (min (capacity s) r)) (demands s),
              capacity := fsub (capacity s) (min (capacity s) r),
              location := city\<rparr>"
  | (refill) km where "\<not> 0 < capacity s"
      "s' = s\<lparr>route := route s @
                 [\<lparr>leg_from = location s, leg_to = depot, leg_depart = time_var s,
                   leg_arrive = time_var s + km, leg_deliver = 0, leg_unload = 0,
                   leg_distance = km\<rparr>],
              time_var := time_var s + km,
              location := depot,
              capacity := vcap\<rparr>"
proof (cases "0 < capacity s")
  case True
  with assms show ?thesis
    by (auto simp: while_body_deliver bindE_eq_Inr intro: deliver)
next
  case False
  with assms show ?thesis
    by (auto simp: while_body_refill bindE_eq_Inr split: if_splits intro: refill)
qed

lemma reachable_trans:
  "reachable cities dm depot vcap s1 s2 \<Longrightarrow> reachable cities dm depot vcap s0 s1
   \<Longrightarrow> reachable cities dm depot vcap s0 s2"
  by (induction rule: reachable.induct) (auto intro: reachable.intros)

lemma city_loop_result:
  assumes "city_loop cities dm depot vcap city s = Some (Inr s')"
  shows "reachable cities dm depot vcap s s'
         \<and> (\<exists>r. remaining_of (demands s') city = Inr r
                \<and> (r \<le> 0 \<or> while_body cities dm depot vcap city s' = Inr Break))"
proof -
  have "\<forall>s'. y = Inr s' \<longrightarrow>
          reachable cities dm depot vcap s s'
          \<and> (\<exists>r. remaining_of (demands s') city = Inr r
                 \<and> (r \<le> 0 \<or> while_body cities dm depot vcap city s' = Inr Break))"
    if run: "city_loop cities dm depot vcap city s = Some y" for y
  proof (rule city_loop.raw_induct
      [where P = "\<lambda>cities dm depot vcap city s y. \<forall>s'. y = Inr s' \<longrightarrow>
          reachable cities dm depot vcap s s'
          \<and> (\<exists>r. remaining_of (demands s') city = Inr r
                 \<and> (r \<le> 0 \<or> while_body cities dm depot vcap city s' = Inr Break))",
       OF _ run], goal_cases)
    case (1 loop cities dm depot vcap city st y)
    show ?case
    proof (cases "remaining_of (demands st) city")
      case (Inl e)
      with 1(2) show ?thesis by auto
    next
      case (Inr r)
      show ?thesis
      proof (cases "0 < r")
        case False
        with Inr 1(2) show ?thesis by (auto intro: reachable.start)
      next
        case True
        show ?thesis
        proof (cases "while_body cities dm depot vcap city st")
          case (Inl e)
          with Inr True 1(2) show ?thesis by auto
        next
          case wb: (Inr stp)
          show ?thesis
          proof (cases stp)
            case Break
            with wb Inr True 1(2) show ?thesis by (auto intro: reachable.start)
          next
            case (Continue s1)
            with wb Inr True 1(2) have l: "loop cities dm depot vcap city s1 = Some y"
              by simp
            have "reachable cities dm depot vcap st s1"
              using reachable.pass[OF reachable.start Inr True] wb Continue by simp
            with 1(1)[OF l] show ?thesis
              by (auto intro: reachable_trans)
          qed
        qed
      qed
    qed
  qed
  with assms show ?thesis by blast
qed

lemma city_loop_reachable:
  "city_loop cities dm depot vcap city s = Some (Inr s')
   \<Longrightarrow> reachable cities dm depot vcap s s'"
  by (simp add: city_loop_result)

lemma for_cities_reachable:
  "for_cities cities dm depot vcap cs s = Some (Inr s')
   \<Longrightarrow> reachable cities dm depot vcap s s'"
proof (induction cs arbitrary: s)
  case Nil
  then show ?case by (auto intro: reachable.start)
next
  case (Cons c cs)
  then show ?case
    by (auto split: option.splits sum.splits
             dest!: city_loop_reachable intro: reachable_trans)
qed

lemma simulate_vehicle_reachable:
  assumes "simulate_vehicle cities dm depot v dems = Some (Inr (r, dems'))"
  obtains start_dt s where "vstart v = Some start_dt"
    "reachable cities dm depot (vcapacity v) (initial_state depot v start_dt dems) s"
    "close_route cities dm depot s = Inr r" "dems' = demands s"
  using assms
  by (auto simp: simulate_vehicle_def bindE_eq_Inr split: option.splits sum.splits
           dest!: for_cities_reachable)

lemma close_route_cases:
  assumes "close_route cities dm depot s = Inr r"
  obtains (stay) "location s = depot" "r = route s"
  | (return) km where "location s \<noteq> depot"
      "r = route s @ [\<lparr>leg_from = location s, leg_to = depot, leg_depart = time_var s,
                 leg_arrive = time_var s + km, leg_deliver = 0, leg_unload = 0,
                 leg_distance = km\<rparr>]"
  using assms
  by (auto simp: close_route_def travel_time_dist bindE_eq_Inr Let_def split: if_splits)

section \<open>Invariants of the simulation\<close>

lemma delivered_to_snoc:
  "delivered_to c (xs @ [l]) = delivered_to c xs + (if leg_to l = c then leg_deliver l else 0)"
  by (simp add: delivered_to_def)

lemma delivered_to_Nil [simp]: "delivered_to c [] = 0"
  by (simp add: delivered_to_def)

lemma load_since_refill_snoc:
  "load_since_refill (xs @ [l]) =
     (if leg_deliver l = 0 then 0 else load_since_refill xs + leg_deliver l)"
  by (simp add: load_since_refill_def)

lemma load_since_refill_Nil [simp]: "load_since_refill [] = 0"
  by (simp add: load_since_refill_def)

lemma in_set_update:
  "p \<in> set (AList.update k v al) \<Longrightarrow> p = (k, v) \<or> p \<in> set al"
  by (induction al) (auto split: if_splits)

text \<open>What holds of every run, rounded subtractions included.\<close>

lemma reachable_demand_bounds:
  assumes "reachable cities dm depot vcap s0 s"
    and "map_of (demands s0) c = Some r0" and "0 \<le> r0" and "is_double r0" and "r0 \<le> B"
    and "\<forall>l\<in>set (route s0). leg_to l = c \<longrightarrow> leg_deliver l \<le> B"
  shows "\<exists>r. map_of (demands s) c = Some r \<and> 0 \<le> r \<and> r \<le> r0 \<and> is_double r
           \<and> (\<forall>l\<in>set (route s). leg_to l = c \<longrightarrow> leg_deliver l \<le> B)"
  using assms
proof (induction rule: reachable.induct)
  case start
  then show ?case by simp
next
  case (pass s city remaining s')
  from pass.IH[OF pass.prems] obtain r where
    r: "map_of (demands s) c = Some r" "0 \<le> r" "r \<le> r0" "is_double r"
       "\<forall>l\<in>set (route s). leg_to l = c \<longrightarrow> leg_deliver l \<le> B"
    by blast
  from pass.hyps(4) show ?case
  proof (cases rule: while_body_Continue_cases)
    case (deliver q km)
    with pass.hyps(2,3) have q: "q = remaining" "0 < q" "map_of (demands s) city = Some q"
      by (simp_all add: remaining_of_eq_Inr)
    show ?thesis
    proof (cases "c = city")
      case True
      with q r have qr: "q = r" by simp
      have d: "0 < min (capacity s) r" "min (capacity s) r \<le> r"
        using deliver(1) q(2) qr by simp_all
      from fsub_bounds[OF d r(4)] r(2,3) d pass.prems(4) deliver(3) True qr r(5)
      show ?thesis
        by (auto simp: update_conv')
    next
      case False
      with r deliver(3) show ?thesis
        by (auto simp: update_conv')
    qed
  next
    case (refill km)
    with r pass.prems(2,4) show ?thesis
      by auto
  qed
qed

lemma reachable_capacity_bounds:
  assumes "reachable cities dm depot vcap s0 s"
    and "0 \<le> vcap" and "is_double vcap"
    and "0 \<le> capacity s0" and "capacity s0 \<le> vcap" and "is_double (capacity s0)"
    and "\<forall>l\<in>set (route s0). leg_deliver l \<le> vcap"
  shows "0 \<le> capacity s \<and> capacity s \<le> vcap \<and> is_double (capacity s)
       \<and> (\<forall>l\<in>set (route s). leg_deliver l \<le> vcap)"
  using assms
proof (induction rule: reachable.induct)
  case start
  then show ?case by simp
next
  case (pass s city remaining s')
  from pass.IH[OF pass.prems] have
    IH: "0 \<le> capacity s" "capacity s \<le> vcap" "is_double (capacity s)"
        "\<forall>l\<in>set (route s). leg_deliver l \<le> vcap"
    by blast+
  from pass.hyps(4) show ?case
  proof (cases rule: while_body_Continue_cases)
    case (deliver q km)
    with pass.hyps(2,3) have q: "0 < q" by simp
    have d: "0 < min (capacity s) q" "min (capacity s) q \<le> capacity s"
      using deliver(1) q by simp_all
    from fsub_bounds[OF d IH(3)] IH(2,4) d deliver(3)
    show ?thesis by auto
  next
    case (refill km)
    with IH(4) pass.prems(1,2) show ?thesis by auto
  qed
qed

text \<open>What holds when no subtraction is rounded.\<close>

lemma deliver_exact:
  assumes "exact_grid Q" and "on_grid Q vcap s" and "0 < capacity s"
    and "map_of (demands s) city = Some r" and "0 < r"
  shows "fsub r (min (capacity s) r) = r - min (capacity s) r"
    and "fsub (capacity s) (min (capacity s) r) = capacity s - min (capacity s) r"
    and "r - min (capacity s) r \<in> Q"
    and "capacity s - min (capacity s) r \<in> Q"
proof -
  from assms(4) have "(city, r) \<in> set (demands s)" by (rule map_of_SomeD)
  with assms(2) have r: "r \<in> Q" by (auto simp: on_grid_def)
  from assms(2) have c: "capacity s \<in> Q" by (simp add: on_grid_def)
  from r c have m: "min (capacity s) r \<in> Q" by (simp add: min_def)
  have d: "0 < min (capacity s) r" "min (capacity s) r \<le> r"
    "min (capacity s) r \<le> capacity s"
    using assms(3,5) by simp_all
  from assms(1) r m d(1,2)
  show "fsub r (min (capacity s) r) = r - min (capacity s) r"
    "r - min (capacity s) r \<in> Q"
    unfolding exact_grid_def by blast+
  from assms(1) c m d(1,3)
  show "fsub (capacity s) (min (capacity s) r) = capacity s - min (capacity s) r"
    "capacity s - min (capacity s) r \<in> Q"
    unfolding exact_grid_def by blast+
qed

lemma reachable_grid:
  assumes "reachable cities dm depot vcap s0 s"
    and "exact_grid Q" and "on_grid Q vcap s0"
  shows "on_grid Q vcap s"
  using assms
proof (induction rule: reachable.induct)
  case start
  then show ?case by simp
next
  case (pass s city remaining s')
  from pass.IH[OF pass.prems] have g: "on_grid Q vcap s" .
  from pass.hyps(4) show ?case
  proof (cases rule: while_body_Continue_cases)
    case (deliver q km)
    with pass.hyps(2,3) have q: "0 < q" "map_of (demands s) city = Some q"
      by (simp_all add: remaining_of_eq_Inr)
    from deliver_exact[OF pass.prems(1) g deliver(1) q(2,1)] g deliver(3)
    show ?thesis
      by (auto simp: on_grid_def dest!: in_set_update)
  next
    case (refill km)
    with g show ?thesis by (simp add: on_grid_def)
  qed
qed

lemma reachable_demand_exact:
  assumes "reachable cities dm depot vcap s0 s"
    and "exact_grid Q" and "on_grid Q vcap s0"
  shows "delivered_to c (route s0) \<le> delivered_to c (route s)
       \<and> (\<forall>r0. map_of (demands s0) c = Some r0 \<longrightarrow>
            (\<exists>r. map_of (demands s) c = Some r
               \<and> r0 = r + (delivered_to c (route s) - delivered_to c (route s0))
               \<and> (0 \<le> r0 \<longrightarrow> 0 \<le> r)))"
  using assms
proof (induction rule: reachable.induct)
  case start
  show ?case by simp
next
  case (pass s city remaining s')
  note IH = pass.IH[OF pass.prems]
  have g: "on_grid Q vcap s"
    using pass.hyps(1) pass.prems by (rule reachable_grid)
  from pass.hyps(4) show ?case
  proof (cases rule: while_body_Continue_cases)
    case (deliver q km)
    with pass.hyps(2,3) have q: "0 < q" "map_of (demands s) city = Some q"
      by (simp_all add: remaining_of_eq_Inr)
    note ex = deliver_exact[OF pass.prems(1) g deliver(1) q(2,1)]
    show ?thesis
    proof (cases "c = city")
      case True
      with IH deliver q ex(1) show ?thesis
        by (auto simp: update_conv' delivered_to_snoc)
    next
      case False
      with IH deliver q show ?thesis
        by (auto simp: update_conv' delivered_to_snoc)
    qed
  next
    case (refill km)
    with IH show ?thesis
      by (auto simp: delivered_to_snoc)
  qed
qed

lemma reachable_capacity_exact:
  assumes "reachable cities dm depot vcap s0 s"
    and "exact_grid Q" and "on_grid Q vcap s0"
    and "0 \<le> vcap"
    and "0 \<le> capacity s0"
    and "capacity s0 + load_since_refill (route s0) = vcap"
    and "\<forall>n\<le>length (route s0). load_since_refill (take n (route s0)) \<le> vcap"
  shows "0 \<le> capacity s
       \<and> capacity s + load_since_refill (route s) = vcap
       \<and> (\<forall>n\<le>length (route s). load_since_refill (take n (route s)) \<le> vcap)"
  using assms
proof (induction rule: reachable.induct)
  case start
  then show ?case by simp
next
  case (pass s city remaining s')
  from pass.IH[OF pass.prems]
  have IH: "0 \<le> capacity s" "capacity s + load_since_refill (route s) = vcap"
    "\<And>n. n \<le> length (route s) \<Longrightarrow> load_since_refill (take n (route s)) \<le> vcap"
    by auto
  have g: "on_grid Q vcap s"
    using pass.hyps(1) pass.prems(1,2) by (rule reachable_grid)
  from pass.hyps(4) show ?case
  proof (cases rule: while_body_Continue_cases)
    case (deliver r km)
    with pass.hyps(2,3) have r: "0 < r" "map_of (demands s) city = Some r"
      by (simp_all add: remaining_of_eq_Inr)
    note ex = deliver_exact[OF pass.prems(1) g deliver(1) r(2,1)]
    have d: "min (capacity s) r \<noteq> 0" "min (capacity s) r \<le> capacity s"
      "0 < min (capacity s) r"
      using deliver(1) r by auto
    have cs: "capacity s' = capacity s - min (capacity s) r"
      using deliver(3) ex(2) by simp
    have "load_since_refill (route s') =
            (if min (capacity s) r = 0 then 0
             else load_since_refill (route s) + min (capacity s) r)"
      using deliver(3) by (simp add: load_since_refill_snoc)
    with d(1) have ls: "load_since_refill (route s') =
        load_since_refill (route s) + min (capacity s) r"
      by (simp only: if_False)
    have whole: "load_since_refill (route s') \<le> vcap"
      "capacity s' + load_since_refill (route s') = vcap" "0 \<le> capacity s'"
      using IH(1,2) d(2,3) cs ls by linarith+
    have "load_since_refill (take n (route s')) \<le> vcap" if "n \<le> length (route s')" for n
    proof (cases "n \<le> length (route s)")
      case True
      with IH(3) deliver(3) show ?thesis by simp
    next
      case False
      with that deliver(3) have "take n (route s') = route s'" by simp
      with whole show ?thesis by simp
    qed
    with whole show ?thesis by simp
  next
    case (refill km)
    have whole: "load_since_refill (route s') = 0" "capacity s' = vcap"
      using refill(2) by (simp_all add: load_since_refill_snoc)
    have "load_since_refill (take n (route s')) \<le> vcap" if "n \<le> length (route s')" for n
    proof (cases "n \<le> length (route s)")
      case True
      with IH(3) refill(2) show ?thesis by simp
    next
      case False
      with that refill(2) have "take n (route s') = route s'" by simp
      with whole pass.prems(3) show ?thesis by simp
    qed
    with whole pass.prems(3) show ?thesis by simp
  qed
qed

lemma reachable_last_leg:
  assumes "reachable cities dm depot vcap s0 s"
    and "route s0 \<noteq> [] \<longrightarrow> leg_to (last (route s0)) = location s0"
  shows "route s \<noteq> [] \<longrightarrow> leg_to (last (route s)) = location s"
  using assms
proof (induction rule: reachable.induct)
  case start
  then show ?case by simp
next
  case (pass s city remaining s')
  from pass.hyps(4) show ?case
    by (cases rule: while_body_Continue_cases) simp_all
qed



lemma close_route_delivered:
  "close_route cities dm depot s = Inr r \<Longrightarrow> delivered_to c r = delivered_to c (route s)"
  by (erule close_route_cases) (simp_all add: delivered_to_snoc)

lemma simulate_vehicle_demand_bounds:
  assumes "simulate_vehicle cities dm depot v dems = Some (Inr (r, dems'))"
    and "map_of dems c = Some r0" and "0 \<le> r0" and "is_double r0" and "r0 \<le> B"
  shows "\<exists>x. map_of dems' c = Some x \<and> 0 \<le> x \<and> x \<le> r0 \<and> is_double x
           \<and> (\<forall>l\<in>set r. leg_to l = c \<longrightarrow> leg_deliver l \<le> B)"
proof -
  from assms(1) obtain start_dt s where
    s: "reachable cities dm depot (vcapacity v) (initial_state depot v start_dt dems) s"
       "close_route cities dm depot s = Inr r" "dems' = demands s"
    by (rule simulate_vehicle_reachable)
  from reachable_demand_bounds[OF s(1), of c r0 B] assms(2-5) obtain x where
    x: "map_of (demands s) c = Some x" "0 \<le> x" "x \<le> r0" "is_double x"
       "\<forall>l\<in>set (route s). leg_to l = c \<longrightarrow> leg_deliver l \<le> B"
    by (auto simp: initial_state_def)
  from s(2) have "\<forall>l\<in>set r. leg_to l = c \<longrightarrow> leg_deliver l \<le> B"
    using x(5) assms(3,5) by (cases rule: close_route_cases) auto
  with x s(3) show ?thesis by simp
qed

lemma simulate_vehicle_demand_exact:
  assumes "simulate_vehicle cities dm depot v dems = Some (Inr (r, dems'))"
    and "exact_grid Q" and "vcapacity v \<in> Q" and "\<forall>p\<in>set dems. snd p \<in> Q"
  shows "(\<forall>p\<in>set dems'. snd p \<in> Q)
       \<and> 0 \<le> delivered_to c r
       \<and> (\<forall>r0. map_of dems c = Some r0 \<longrightarrow>
            (\<exists>x. map_of dems' c = Some x \<and> r0 = x + delivered_to c r
                 \<and> (0 \<le> r0 \<longrightarrow> 0 \<le> x)))"
proof -
  from assms(1) obtain start_dt s where
    s: "reachable cities dm depot (vcapacity v) (initial_state depot v start_dt dems) s"
       "close_route cities dm depot s = Inr r" "dems' = demands s"
    by (rule simulate_vehicle_reachable)
  have g0: "on_grid Q (vcapacity v) (initial_state depot v start_dt dems)"
    using assms(3,4) by (simp add: on_grid_def initial_state_def)
  from reachable_grid[OF s(1) assms(2) g0] s(3) have "\<forall>p\<in>set dems'. snd p \<in> Q"
    by (simp add: on_grid_def)
  with reachable_demand_exact[OF s(1) assms(2) g0, of c]
    close_route_delivered[OF s(2), of c] s(3)
  show ?thesis
    by (simp add: initial_state_def)
qed

lemma plan_delivered_update:
  assumes "\<forall>p\<in>set sol. 0 \<le> delivered_to c (snd p)" and "0 \<le> delivered_to c r"
  shows "plan_delivered_to c (AList.update k r sol) \<le> plan_delivered_to c sol + delivered_to c r
       \<and> (\<forall>p\<in>set (AList.update k r sol). 0 \<le> delivered_to c (snd p))"
  using assms
  by (induction sol) (auto simp: plan_delivered_to_def)

lemma plan_delivered_nonneg:
  "\<forall>p\<in>set sol. 0 \<le> delivered_to c (snd p) \<Longrightarrow> 0 \<le> plan_delivered_to c sol"
  by (induction sol) (simp_all add: plan_delivered_to_def)

lemma for_vehicles_demand_bounds:
  assumes "for_vehicles cities dm depot vs sol dems = Some (Inr (sol', dems'))"
    and "map_of dems c = Some r0" and "0 \<le> r0" and "is_double r0" and "r0 \<le> B"
    and "\<forall>p\<in>set sol. \<forall>l\<in>set (snd p). leg_to l = c \<longrightarrow> leg_deliver l \<le> B"
  shows "\<exists>x. map_of dems' c = Some x \<and> 0 \<le> x \<and> x \<le> r0 \<and> is_double x
           \<and> (\<forall>p\<in>set sol'. \<forall>l\<in>set (snd p). leg_to l = c \<longrightarrow> leg_deliver l \<le> B)"
  using assms
proof (induction vs arbitrary: sol dems r0)
  case Nil
  then show ?case by simp
next
  case (Cons v vs)
  show ?case
  proof (cases "list_ex (\<lambda>d. snd d > 0) dems")
    case False
    with Cons.prems(1) have "for_vehicles cities dm depot vs sol dems = Some (Inr (sol', dems'))"
      by simp
    from Cons.IH[OF this Cons.prems(2-6)] show ?thesis .
  next
    case True
    with Cons.prems(1) obtain r dems1 where
      sv: "simulate_vehicle cities dm depot v dems = Some (Inr (r, dems1))"
      and rest: "for_vehicles cities dm depot vs
                   (if r \<noteq> [] then AList.update (vid v) r sol else sol) dems1
                 = Some (Inr (sol', dems'))"
      by (auto split: option.splits sum.splits)
    let ?sol1 = "if r \<noteq> [] then AList.update (vid v) r sol else sol"
    from simulate_vehicle_demand_bounds[OF sv Cons.prems(2-5)] obtain x1 where
      x1: "map_of dems1 c = Some x1" "0 \<le> x1" "x1 \<le> r0" "is_double x1"
          "\<forall>l\<in>set r. leg_to l = c \<longrightarrow> leg_deliver l \<le> B"
      by blast
    have sol1: "\<forall>p\<in>set ?sol1. \<forall>l\<in>set (snd p). leg_to l = c \<longrightarrow> leg_deliver l \<le> B"
      using Cons.prems(6) x1(5) by (auto dest!: in_set_update)
    have "x1 \<le> B" using x1(3) Cons.prems(5) by simp
    from Cons.IH[OF rest x1(1,2,4) this sol1] x1(3) show ?thesis by auto
  qed
qed

lemma for_vehicles_demand_exact:
  assumes "for_vehicles cities dm depot vs sol dems = Some (Inr (sol', dems'))"
    and "exact_grid Q" and "\<forall>v\<in>set vs. vcapacity v \<in> Q" and "\<forall>p\<in>set dems. snd p \<in> Q"
    and "\<forall>p\<in>set sol. 0 \<le> delivered_to c (snd p)"
    and "map_of dems c = Some r0"
  shows "\<exists>x. map_of dems' c = Some x \<and> (0 \<le> r0 \<longrightarrow> 0 \<le> x)
           \<and> x + plan_delivered_to c sol' \<le> r0 + plan_delivered_to c sol
           \<and> (\<forall>p\<in>set sol'. 0 \<le> delivered_to c (snd p))"
  using assms
proof (induction vs arbitrary: sol dems r0)
  case Nil
  then show ?case by simp
next
  case (Cons v vs)
  from Cons.prems(3) have vs: "\<forall>v\<in>set vs. vcapacity v \<in> Q" and v: "vcapacity v \<in> Q"
    by simp_all
  show ?case
  proof (cases "list_ex (\<lambda>d. snd d > 0) dems")
    case False
    with Cons.prems(1) have "for_vehicles cities dm depot vs sol dems = Some (Inr (sol', dems'))"
      by simp
    from Cons.IH[OF this Cons.prems(2) vs Cons.prems(4,5,6)] show ?thesis .
  next
    case True
    with Cons.prems(1) obtain r dems1 where
      sv: "simulate_vehicle cities dm depot v dems = Some (Inr (r, dems1))"
      and rest: "for_vehicles cities dm depot vs
                   (if r \<noteq> [] then AList.update (vid v) r sol else sol) dems1
                 = Some (Inr (sol', dems'))"
      by (auto split: option.splits sum.splits)
    let ?sol1 = "if r \<noteq> [] then AList.update (vid v) r sol else sol"
    from simulate_vehicle_demand_exact[OF sv Cons.prems(2) v Cons.prems(4), of c]
      Cons.prems(6) obtain x1 where
      x1: "\<forall>p\<in>set dems1. snd p \<in> Q" "0 \<le> delivered_to c r" "map_of dems1 c = Some x1"
          "r0 = x1 + delivered_to c r" "0 \<le> r0 \<longrightarrow> 0 \<le> x1"
      by auto
    have sol1: "plan_delivered_to c ?sol1 \<le> plan_delivered_to c sol + delivered_to c r"
      "\<forall>p\<in>set ?sol1. 0 \<le> delivered_to c (snd p)"
      using plan_delivered_update[OF Cons.prems(5) x1(2), of "vid v"] x1(2) Cons.prems(5)
      by auto
    from Cons.IH[OF rest Cons.prems(2) vs x1(1) sol1(2) x1(3)] obtain x where
      x: "map_of dems' c = Some x" "0 \<le> x1 \<longrightarrow> 0 \<le> x"
         "x + plan_delivered_to c sol' \<le> x1 + plan_delivered_to c ?sol1"
         "\<forall>p\<in>set sol'. 0 \<le> delivered_to c (snd p)"
      by auto
    from x x1 sol1(1) show ?thesis by auto
  qed
qed

lemma map_of_demands_copy_gen:
  "map_of (fold (\<lambda>d acc. AList.update (d_city d) (d_demand d) acc) ds acc0)
   = map_of (rev (map (\<lambda>d. (d_city d, d_demand d)) ds) @ acc0)"
proof (induction ds arbitrary: acc0)
  case Nil
  show ?case by simp
next
  case (Cons d ds)
  show ?case
    by (simp add: Cons.IH map_of_append update_conv' map_add_upd_left flip: map_add_assoc)
qed

lemma map_of_demands_copy:
  "map_of (demands_copy ds) = map_of (rev (map (\<lambda>d. (d_city d, d_demand d)) ds))"
  by (simp add: demands_copy_def map_of_demands_copy_gen)

lemma distinct_demands_copy_gen:
  "distinct (map fst acc0)
   \<Longrightarrow> distinct (map fst (fold (\<lambda>d acc. AList.update (d_city d) (d_demand d) acc) ds acc0))"
  by (induction ds arbitrary: acc0) (simp_all add: distinct_update)

lemma distinct_demands_copy: "distinct (map fst (demands_copy ds))"
  by (simp add: demands_copy_def distinct_demands_copy_gen)

lemma demands_copy_grid_gen:
  "\<forall>e\<in>set ds. d_demand e \<in> Q \<Longrightarrow> \<forall>p\<in>set acc0. snd p \<in> Q
   \<Longrightarrow> \<forall>p\<in>set (fold (\<lambda>d acc. AList.update (d_city d) (d_demand d) acc) ds acc0). snd p \<in> Q"
proof (induction ds arbitrary: acc0)
  case Nil
  then show ?case by simp
next
  case (Cons d ds)
  have "\<forall>p\<in>set (AList.update (d_city d) (d_demand d) acc0). snd p \<in> Q"
    using Cons.prems by (auto dest!: in_set_update)
  moreover have "\<forall>e\<in>set ds. d_demand e \<in> Q" using Cons.prems(1) by simp
  ultimately have "\<forall>p\<in>set (fold (\<lambda>d acc. AList.update (d_city d) (d_demand d) acc) ds
      (AList.update (d_city d) (d_demand d) acc0)). snd p \<in> Q"
    by (intro Cons.IH)
  then show ?case by simp
qed

lemma demands_copy_grid:
  assumes "\<forall>e\<in>set ds. d_demand e \<in> Q"
  shows "\<forall>p\<in>set (demands_copy ds). snd p \<in> Q"
  unfolding demands_copy_def using assms by (rule demands_copy_grid_gen) simp

lemma demands_copy_last:
  assumes "ds = xs @ d # ys" and "\<forall>y\<in>set ys. d_city y \<noteq> d_city d"
  shows "map_of (demands_copy ds) (d_city d) = Some (d_demand d)"
proof -
  have "map_of (rev (map (\<lambda>d. (d_city d, d_demand d)) ys)) (d_city d) = None"
    using assms(2) by (auto simp: map_of_eq_None_iff image_iff)
  then show ?thesis
    by (simp add: map_of_demands_copy assms(1) map_of_append map_add_def)
qed



lemma simulate_vehicle_for_cities:
  assumes "simulate_vehicle cities dm depot v dems = Some (Inr (r, dems'))"
  obtains start_dt s where "vstart v = Some start_dt"
    "for_cities cities dm depot (vcapacity v) (map fst dems)
       (initial_state depot v start_dt dems) = Some (Inr s)"
    "close_route cities dm depot s = Inr r" "dems' = demands s"
  using assms
  by (auto simp: simulate_vehicle_def bindE_eq_Inr split: option.splits sum.splits)

lemma close_route_closed_form:
  "close_route cities dm depot s =
     (if location s \<noteq> depot then
        bindE (dist_between cities dm (location s) depot) (\<lambda>km.
          Inr (route s @
               [\<lparr>leg_from = location s, leg_to = depot, leg_depart = time_var s,
                 leg_arrive = time_var s + (km / 60) * 60, leg_deliver = 0, leg_unload = 0,
                 leg_distance = km\<rparr>]))
      else Inr (route s))"
  by (cases "dist_between cities dm (location s) depot")
     (simp_all add: close_route_def travel_time_dist Let_def)

lemma whole_numeral [simp]:
  "numeral k \<le> (9007199254740992::real) \<Longrightarrow> numeral k \<in> whole_quantities"
  by (simp add: whole_quantities_def)

lemma whole_zero [simp]: "0 \<in> whole_quantities"
  by (simp add: whole_quantities_def)

section \<open>Termination\<close>







section \<open>Remaining quantity of a demand\<close>

text \<open>
  Claim C1, as amended. Let \<open>d\<close> be the last demand record that declares its city (any
  record when the city names are distinct), with a declared quantity that is a double
  and not negative. A run of \<^verbatim>\<open>run_vrptw\<close> that returns leaves a remaining quantity
  for the city of \<open>d\<close> between zero and the declared quantity, and every leg of the plan
  that goes to that city delivers at most the declared quantity. The deliver amounts of
  all these legs sum to at most the declared quantity provided no subtraction is
  rounded: all capacities and quantities lie in a set \<open>Q\<close> on which the double
  subtraction is exact. During the run, in every state that a simulation reaches from a
  state where the remaining quantity of the city is a double \<open>r1 \<ge> 0\<close>, the remaining
  quantity is between zero and \<open>r1\<close>: it never grows and never becomes negative.
\<close>

theorem remaining_quantity_invariant:
  assumes "ds = xs @ d # ys" and "\<forall>y\<in>set ys. d_city y \<noteq> d_city d"
    and "0 \<le> d_demand d" and "is_double (d_demand d)"
    and "for_vehicles cities dm depot vehicles [] (demands_copy ds)
           = Some (Inr (solution, dems'))"
  shows "run_vrptw vehicles ds cities dm depot = Some (Inr solution)
       \<and> (\<exists>x. map_of dems' (d_city d) = Some x \<and> 0 \<le> x \<and> x \<le> d_demand d)
       \<and> (\<forall>p\<in>set solution. \<forall>l\<in>set (snd p).
            leg_to l = d_city d \<longrightarrow> leg_deliver l \<le> d_demand d)
       \<and> (exact_grid Q \<and> (\<forall>v\<in>set vehicles. vcapacity v \<in> Q)
            \<and> (\<forall>e\<in>set ds. d_demand e \<in> Q) \<longrightarrow>
          plan_delivered_to (d_city d) solution \<le> d_demand d)
       \<and> (\<forall>vcap s0 s r1.
            reachable cities dm depot vcap s0 s \<longrightarrow>
            map_of (demands s0) (d_city d) = Some r1 \<longrightarrow> 0 \<le> r1 \<longrightarrow> is_double r1 \<longrightarrow>
            (\<exists>x. map_of (demands s) (d_city d) = Some x \<and> 0 \<le> x \<and> x \<le> r1))"
proof -
  have entry: "map_of (demands_copy ds) (d_city d) = Some (d_demand d)"
    using assms(1,2) by (rule demands_copy_last)
  from for_vehicles_demand_bounds[OF assms(5) entry assms(3,4) order_refl]
  have final: "\<exists>x. map_of dems' (d_city d) = Some x \<and> 0 \<le> x \<and> x \<le> d_demand d"
    and legs: "\<forall>p\<in>set solution. \<forall>l\<in>set (snd p).
            leg_to l = d_city d \<longrightarrow> leg_deliver l \<le> d_demand d"
    by auto
  have total: "plan_delivered_to (d_city d) solution \<le> d_demand d"
    if g: "exact_grid Q" "\<forall>v\<in>set vehicles. vcapacity v \<in> Q" "\<forall>e\<in>set ds. d_demand e \<in> Q"
  proof -
    have "\<forall>p\<in>set (demands_copy ds). snd p \<in> Q" using g(3) by (rule demands_copy_grid)
    from for_vehicles_demand_exact[OF assms(5) g(1,2) this _ entry] assms(3)
    obtain x where "0 \<le> x" "x + plan_delivered_to (d_city d) solution \<le> d_demand d"
      by (auto simp: plan_delivered_to_def)
    then show ?thesis by simp
  qed
  have during: "\<exists>x. map_of (demands s) (d_city d) = Some x \<and> 0 \<le> x \<and> x \<le> r1"
    if "reachable cities dm depot vcap s0 s" "map_of (demands s0) (d_city d) = Some r1"
      "0 \<le> r1" "is_double r1"
    for vcap s0 s r1
  proof -
    define B where "B = Max (insert r1 (leg_deliver ` set (route s0)))"
    have "r1 \<le> B" "\<forall>l\<in>set (route s0). leg_to l = d_city d \<longrightarrow> leg_deliver l \<le> B"
      by (simp_all add: B_def)
    from reachable_demand_bounds[OF that this] show ?thesis by blast
  qed
  have "run_vrptw vehicles ds cities dm depot = Some (Inr solution)"
    using assms(5) by (simp add: run_vrptw_def)
  with final legs total during show ?thesis by blast
qed

theorem remaining_quantity_invariant_witness:
  "run_vrptw [\<lparr>vid = 1, vcapacity = 10, vstart = Some 0\<rparr>]
     [\<lparr>d_city = ''D'', d_demand = 25, tw_start = ''09:00'', tw_end = ''17:00''\<rparr>]
     [''S'', ''D''] [[0, 60], [60, 0]] ''S''
   = Some (Inr [(1, [\<lparr>leg_from = ''S'', leg_to = ''D'', leg_depart = 0, leg_arrive = 60,
                       leg_deliver = 10, leg_unload = 3, leg_distance = 60\<rparr>,
                     \<lparr>leg_from = ''D'', leg_to = ''S'', leg_depart = 63, leg_arrive = 123,
                       leg_deliver = 0, leg_unload = 0, leg_distance = 60\<rparr>])])
   \<and> (\<exists>x. map_of [(''D'', 15)] ''D'' = Some x \<and> (0::real) \<le> x \<and> x \<le> 25)
   \<and> plan_delivered_to ''D''
        [(1, [\<lparr>leg_from = ''S'', leg_to = ''D'', leg_depart = 0, leg_arrive = 60,
                leg_deliver = 10, leg_unload = 3, leg_distance = 60\<rparr>,
              \<lparr>leg_from = ''D'', leg_to = ''S'', leg_depart = 63, leg_arrive = 123,
                leg_deliver = 0, leg_unload = 0, leg_distance = 60\<rparr>])] \<le> 25
   \<and> (\<exists>x. map_of (demands
         \<lparr>time_var = 63, location = ''D'', capacity = 0,
          route = [\<lparr>leg_from = ''S'', leg_to = ''D'', leg_depart = 0, leg_arrive = 60,
                    leg_deliver = 10, leg_unload = 3, leg_distance = 60\<rparr>],
          demands = [(''D'', 15)]\<rparr>) ''D'' = Some x \<and> 0 \<le> x \<and> x \<le> 25)"
proof -
  have run: "for_vehicles [''S'', ''D''] [[0, 60], [60, 0]] ''S''
      [\<lparr>vid = 1, vcapacity = 10, vstart = Some 0\<rparr>] []
      (demands_copy
         ([] @ \<lparr>d_city = ''D'', d_demand = 25, tw_start = ''09:00'', tw_end = ''17:00''\<rparr> # []))
    = Some (Inr ([(1, [\<lparr>leg_from = ''S'', leg_to = ''D'', leg_depart = 0, leg_arrive = 60,
                       leg_deliver = 10, leg_unload = 3, leg_distance = 60\<rparr>,
                     \<lparr>leg_from = ''D'', leg_to = ''S'', leg_depart = 63, leg_arrive = 123,
                       leg_deliver = 0, leg_unload = 0, leg_distance = 60\<rparr>])],
                 [(''D'', 15)]))"
    by (simp add: sim_defs demands_copy_def)
  have pass: "reachable [''S'', ''D''] [[0, 60], [60, 0]] ''S'' 10
      \<lparr>time_var = 0, location = ''S'', capacity = 10, route = [], demands = [(''D'', 25)]\<rparr>
      \<lparr>time_var = 63, location = ''D'', capacity = 0,
       route = [\<lparr>leg_from = ''S'', leg_to = ''D'', leg_depart = 0, leg_arrive = 60,
                 leg_deliver = 10, leg_unload = 3, leg_distance = 60\<rparr>],
       demands = [(''D'', 15)]\<rparr>"
    by (rule reachable.pass[OF reachable.start, where city = "''D''" and remaining = 25])
       (simp_all add: sim_defs)
  have last: "\<forall>y\<in>set []. d_city y \<noteq>
      d_city \<lparr>d_city = ''D'', d_demand = 25, tw_start = ''09:00'', tw_end = ''17:00''\<rparr>"
    by simp
  have nn: "0 \<le> d_demand
      \<lparr>d_city = ''D'', d_demand = 25, tw_start = ''09:00'', tw_end = ''17:00''\<rparr>"
    by simp
  have dbl: "is_double (d_demand
      \<lparr>d_city = ''D'', d_demand = 25, tw_start = ''09:00'', tw_end = ''17:00''\<rparr>)"
    by (simp add: is_double_whole)
  have grid: "exact_grid whole_quantities
      \<and> (\<forall>v\<in>set [\<lparr>vid = 1, vcapacity = 10, vstart = Some 0\<rparr>]. vcapacity v \<in> whole_quantities)
      \<and> (\<forall>e\<in>set ([] @ \<lparr>d_city = ''D'', d_demand = 25, tw_start = ''09:00'',
                          tw_end = ''17:00''\<rparr> # []). d_demand e \<in> whole_quantities)"
    by (simp add: exact_grid_whole)
  have start: "map_of (demands
      \<lparr>time_var = 0, location = ''S'', capacity = 10, route = [], demands = [(''D'', 25)]\<rparr>)
      (d_city \<lparr>d_city = ''D'', d_demand = 25, tw_start = ''09:00'', tw_end = ''17:00''\<rparr>)
      = Some 25" "(0::real) \<le> 25" "is_double 25"
    by (simp_all add: is_double_whole)
  note th = remaining_quantity_invariant[OF refl last nn dbl run,
      where Q = whole_quantities]
  from th have a: "run_vrptw [\<lparr>vid = 1, vcapacity = 10, vstart = Some 0\<rparr>]
     ([] @ \<lparr>d_city = ''D'', d_demand = 25, tw_start = ''09:00'', tw_end = ''17:00''\<rparr> # [])
     [''S'', ''D''] [[0, 60], [60, 0]] ''S''
   = Some (Inr [(1, [\<lparr>leg_from = ''S'', leg_to = ''D'', leg_depart = 0, leg_arrive = 60,
                       leg_deliver = 10, leg_unload = 3, leg_distance = 60\<rparr>,
                     \<lparr>leg_from = ''D'', leg_to = ''S'', leg_depart = 63, leg_arrive = 123,
                       leg_deliver = 0, leg_unload = 0, leg_distance = 60\<rparr>])])"
    by (rule conjunct1)
  from th have b: "\<exists>x. map_of [(''D'', 15)]
      (d_city \<lparr>d_city = ''D'', d_demand = 25, tw_start = ''09:00'', tw_end = ''17:00''\<rparr>)
      = Some x \<and> 0 \<le> x \<and> x \<le> d_demand
      \<lparr>d_city = ''D'', d_demand = 25, tw_start = ''09:00'', tw_end = ''17:00''\<rparr>"
    by (rule conjunct2[THEN conjunct1])
  from th grid have c: "plan_delivered_to
      (d_city \<lparr>d_city = ''D'', d_demand = 25, tw_start = ''09:00'', tw_end = ''17:00''\<rparr>)
      [(1, [\<lparr>leg_from = ''S'', leg_to = ''D'', leg_depart = 0, leg_arrive = 60,
                leg_deliver = 10, leg_unload = 3, leg_distance = 60\<rparr>,
              \<lparr>leg_from = ''D'', leg_to = ''S'', leg_depart = 63, leg_arrive = 123,
                leg_deliver = 0, leg_unload = 0, leg_distance = 60\<rparr>])]
      \<le> d_demand \<lparr>d_city = ''D'', d_demand = 25, tw_start = ''09:00'', tw_end = ''17:00''\<rparr>"
    by blast
  from th pass start have d: "\<exists>x. map_of (demands
         \<lparr>time_var = 63, location = ''D'', capacity = 0,
          route = [\<lparr>leg_from = ''S'', leg_to = ''D'', leg_depart = 0, leg_arrive = 60,
                    leg_deliver = 10, leg_unload = 3, leg_distance = 60\<rparr>],
          demands = [(''D'', 15)]\<rparr>)
      (d_city \<lparr>d_city = ''D'', d_demand = 25, tw_start = ''09:00'', tw_end = ''17:00''\<rparr>)
      = Some x \<and> 0 \<le> x \<and> x \<le> 25"
    by blast
  from a b c d show ?thesis
    by simp
qed

text \<open>
  The claim as stated fails twice. With two records for city A, of 5 and of 7, the plan
  delivers 7 to A, more than the first record declares. With a vehicle of capacity
  \<open>2 ^ -55\<close> and a demand of 1, the first delivery is absorbed (the remaining quantity
  stays 1), the second vehicle delivers 1, and the two deliveries sum to more than 1.
\<close>

theorem remaining_quantity_invariant_counterexample:
  "run_vrptw [\<lparr>vid = 1, vcapacity = 10, vstart = Some 0\<rparr>]
     [\<lparr>d_city = ''A'', d_demand = 5, tw_start = ''09:00'', tw_end = ''17:00''\<rparr>,
      \<lparr>d_city = ''A'', d_demand = 7, tw_start = ''10:00'', tw_end = ''18:00''\<rparr>]
     [''S'', ''A''] [[0, 60], [60, 0]] ''S''
   = Some (Inr [(1, [\<lparr>leg_from = ''S'', leg_to = ''A'', leg_depart = 0, leg_arrive = 60,
                       leg_deliver = 7, leg_unload = 21 / 10, leg_distance = 60\<rparr>,
                     \<lparr>leg_from = ''A'', leg_to = ''S'', leg_depart = 60 + 21 / 10,
                       leg_arrive = 120 + 21 / 10, leg_deliver = 0, leg_unload = 0,
                       leg_distance = 60\<rparr>])])
   \<and> \<not> plan_delivered_to ''A''
          [(1, [\<lparr>leg_from = ''S'', leg_to = ''A'', leg_depart = 0, leg_arrive = 60,
                  leg_deliver = 7, leg_unload = 21 / 10, leg_distance = 60\<rparr>,
                \<lparr>leg_from = ''A'', leg_to = ''S'', leg_depart = 60 + 21 / 10,
                  leg_arrive = 120 + 21 / 10, leg_deliver = 0, leg_unload = 0,
                  leg_distance = 60\<rparr>])]
        \<le> d_demand \<lparr>d_city = ''A'', d_demand = 5, tw_start = ''09:00'', tw_end = ''17:00''\<rparr>
   \<and> run_vrptw [\<lparr>vid = 1, vcapacity = 1 / 36028797018963968, vstart = Some 0\<rparr>,
                \<lparr>vid = 2, vcapacity = 1, vstart = Some 0\<rparr>]
     [\<lparr>d_city = ''A'', d_demand = 1, tw_start = ''09:00'', tw_end = ''17:00''\<rparr>]
     [''S'', ''A''] [[0, 60], [60, 0]] ''S''
   = Some (Inr [(1, [\<lparr>leg_from = ''S'', leg_to = ''A'', leg_depart = 0, leg_arrive = 60,
                       leg_deliver = 1 / 36028797018963968,
                       leg_unload = 1 / 36028797018963968 / 100 * 30, leg_distance = 60\<rparr>,
                     \<lparr>leg_from = ''A'', leg_to = ''S'',
                       leg_depart = 60 + 1 / 36028797018963968 / 100 * 30,
                       leg_arrive = 120 + 1 / 36028797018963968 / 100 * 30,
                       leg_deliver = 0, leg_unload = 0, leg_distance = 60\<rparr>]),
                (2, [\<lparr>leg_from = ''S'', leg_to = ''A'', leg_depart = 0, leg_arrive = 60,
                       leg_deliver = 1, leg_unload = 3 / 10, leg_distance = 60\<rparr>,
                     \<lparr>leg_from = ''A'', leg_to = ''S'', leg_depart = 60 + 3 / 10,
                       leg_arrive = 120 + 3 / 10, leg_deliver = 0, leg_unload = 0,
                       leg_distance = 60\<rparr>])])
   \<and> \<not> plan_delivered_to ''A''
          [(1, [\<lparr>leg_from = ''S'', leg_to = ''A'', leg_depart = 0, leg_arrive = 60,
                  leg_deliver = 1 / 36028797018963968,
                  leg_unload = 1 / 36028797018963968 / 100 * 30, leg_distance = 60\<rparr>,
                \<lparr>leg_from = ''A'', leg_to = ''S'',
                  leg_depart = 60 + 1 / 36028797018963968 / 100 * 30,
                  leg_arrive = 120 + 1 / 36028797018963968 / 100 * 30,
                  leg_deliver = 0, leg_unload = 0, leg_distance = 60\<rparr>]),
           (2, [\<lparr>leg_from = ''S'', leg_to = ''A'', leg_depart = 0, leg_arrive = 60,
                  leg_deliver = 1, leg_unload = 3 / 10, leg_distance = 60\<rparr>,
                \<lparr>leg_from = ''A'', leg_to = ''S'', leg_depart = 60 + 3 / 10,
                  leg_arrive = 120 + 3 / 10, leg_deliver = 0, leg_unload = 0,
                  leg_distance = 60\<rparr>])]
        \<le> d_demand \<lparr>d_city = ''A'', d_demand = 1, tw_start = ''09:00'', tw_end = ''17:00''\<rparr>"
  by (simp add: run_vrptw_def demands_copy_def sim_defs fsub_absorbed
        plan_delivered_to_def delivered_to_def)

section \<open>Remaining capacity of a vehicle\<close>

text \<open>
  Claim C2, as amended. For every vehicle whose declared capacity is a double and not
  negative: in every state that its simulation reaches the remaining capacity lies
  between zero and the declared capacity, and every leg of its route delivers at most
  the declared capacity, also in the route that \<^verbatim>\<open>simulate_vehicle\<close> returns. At every
  point of the route the quantity delivered on the delivery legs since the last refill
  (or since the start) is at most the declared capacity provided no subtraction is
  rounded: the capacity and all quantities lie in a set \<open>Q\<close> on which the double
  subtraction is exact.
\<close>

theorem capacity_invariant:
  assumes "0 \<le> vcapacity v" and "is_double (vcapacity v)"
  shows "(reachable cities dm depot (vcapacity v) (initial_state depot v start_dt dems) s \<longrightarrow>
            0 \<le> capacity s \<and> capacity s \<le> vcapacity v
          \<and> (\<forall>l\<in>set (route s). leg_deliver l \<le> vcapacity v))
       \<and> (simulate_vehicle cities dm depot v dems = Some (Inr (r, dems')) \<longrightarrow>
            (\<forall>l\<in>set r. leg_deliver l \<le> vcapacity v))
       \<and> (exact_grid Q \<and> vcapacity v \<in> Q \<and> (\<forall>p\<in>set dems. snd p \<in> Q) \<longrightarrow>
            (reachable cities dm depot (vcapacity v) (initial_state depot v start_dt dems) s \<longrightarrow>
               (\<forall>n\<le>length (route s). load_since_refill (take n (route s)) \<le> vcapacity v))
          \<and> (simulate_vehicle cities dm depot v dems = Some (Inr (r, dems')) \<longrightarrow>
               (\<forall>n\<le>length r. load_since_refill (take n r) \<le> vcapacity v)))"
proof -
  have bounds: "0 \<le> capacity s' \<and> capacity s' \<le> vcapacity v
      \<and> (\<forall>l\<in>set (route s'). leg_deliver l \<le> vcapacity v)"
    if "reachable cities dm depot (vcapacity v) (initial_state depot v t dems) s'" for t s'
    using reachable_capacity_bounds[OF that assms] assms
    by (simp add: initial_state_def)
  have legs: "\<forall>l\<in>set r. leg_deliver l \<le> vcapacity v"
    if sv: "simulate_vehicle cities dm depot v dems = Some (Inr (r, dems'))"
  proof -
    from sv obtain t s' where
      s': "reachable cities dm depot (vcapacity v) (initial_state depot v t dems) s'"
          "close_route cities dm depot s' = Inr r"
      by (rule simulate_vehicle_reachable)
    from s'(2) bounds[OF s'(1)] assms(1) show ?thesis
      by (cases rule: close_route_cases) auto
  qed
  have loads: "\<forall>n\<le>length (route s'). load_since_refill (take n (route s')) \<le> vcapacity v"
    if g: "exact_grid Q" "vcapacity v \<in> Q" "\<forall>p\<in>set dems. snd p \<in> Q"
      and re: "reachable cities dm depot (vcapacity v) (initial_state depot v t dems) s'"
    for t s'
  proof -
    have g0: "on_grid Q (vcapacity v) (initial_state depot v t dems)"
      using g(2,3) by (simp add: on_grid_def initial_state_def)
    from reachable_capacity_exact[OF re g(1) g0 assms(1)] assms(1) show ?thesis
      by (simp add: initial_state_def)
  qed
  have fin: "\<forall>n\<le>length r. load_since_refill (take n r) \<le> vcapacity v"
    if g: "exact_grid Q" "vcapacity v \<in> Q" "\<forall>p\<in>set dems. snd p \<in> Q"
      and sv: "simulate_vehicle cities dm depot v dems = Some (Inr (r, dems'))"
  proof -
    from sv obtain t s' where
      s': "reachable cities dm depot (vcapacity v) (initial_state depot v t dems) s'"
          "close_route cities dm depot s' = Inr r"
      by (rule simulate_vehicle_reachable)
    note inv = loads[OF g s'(1)]
    from s'(2) show ?thesis
    proof (cases rule: close_route_cases)
      case stay
      with inv show ?thesis by simp
    next
      case (return km)
      show ?thesis
      proof (intro allI impI)
        fix n assume n: "n \<le> length r"
        show "load_since_refill (take n r) \<le> vcapacity v"
        proof (cases "n \<le> length (route s')")
          case True
          with inv return(2) show ?thesis by simp
        next
          case False
          with n return(2) have "take n r = r" by simp
          with return(2) assms(1) show ?thesis by (simp add: load_since_refill_snoc)
        qed
      qed
    qed
  qed
  from bounds legs loads fin show ?thesis by blast
qed

theorem capacity_invariant_witness:
  "(0::real) \<le> 10
   \<and> 0 \<le> capacity
        \<lparr>time_var = 63, location = ''D'', capacity = 0,
         route = [\<lparr>leg_from = ''S'', leg_to = ''D'', leg_depart = 0, leg_arrive = 60,
                   leg_deliver = 10, leg_unload = 3, leg_distance = 60\<rparr>],
         demands = [(''D'', 15)]\<rparr>
   \<and> load_since_refill (take 0
         [\<lparr>leg_from = ''S'', leg_to = ''D'', leg_depart = 0, leg_arrive = 60,
           leg_deliver = 10, leg_unload = 3, leg_distance = 60\<rparr>,
          \<lparr>leg_from = ''D'', leg_to = ''S'', leg_depart = 63, leg_arrive = 123,
           leg_deliver = 0, leg_unload = 0, leg_distance = 60\<rparr>]) \<le> 10
   \<and> load_since_refill (take 1
         [\<lparr>leg_from = ''S'', leg_to = ''D'', leg_depart = 0, leg_arrive = 60,
           leg_deliver = 10, leg_unload = 3, leg_distance = 60\<rparr>,
          \<lparr>leg_from = ''D'', leg_to = ''S'', leg_depart = 63, leg_arrive = 123,
           leg_deliver = 0, leg_unload = 0, leg_distance = 60\<rparr>]) \<le> 10
   \<and> load_since_refill (take 2
         [\<lparr>leg_from = ''S'', leg_to = ''D'', leg_depart = 0, leg_arrive = 60,
           leg_deliver = 10, leg_unload = 3, leg_distance = 60\<rparr>,
          \<lparr>leg_from = ''D'', leg_to = ''S'', leg_depart = 63, leg_arrive = 123,
           leg_deliver = 0, leg_unload = 0, leg_distance = 60\<rparr>]) \<le> 10"
proof -
  have sv: "simulate_vehicle [''S'', ''D''] [[0, 60], [60, 0]] ''S''
      \<lparr>vid = 1, vcapacity = 10, vstart = Some 0\<rparr> [(''D'', 25)]
    = Some (Inr ([\<lparr>leg_from = ''S'', leg_to = ''D'', leg_depart = 0, leg_arrive = 60,
                   leg_deliver = 10, leg_unload = 3, leg_distance = 60\<rparr>,
                  \<lparr>leg_from = ''D'', leg_to = ''S'', leg_depart = 63, leg_arrive = 123,
                   leg_deliver = 0, leg_unload = 0, leg_distance = 60\<rparr>],
                 [(''D'', 15)]))"
    by (simp add: sim_defs)
  have pass: "reachable [''S'', ''D''] [[0, 60], [60, 0]] ''S''
      (vcapacity \<lparr>vid = 1, vcapacity = 10, vstart = Some 0\<rparr>)
      (initial_state ''S'' \<lparr>vid = 1, vcapacity = 10, vstart = Some 0\<rparr> 0 [(''D'', 25)])
      \<lparr>time_var = 63, location = ''D'', capacity = 0,
       route = [\<lparr>leg_from = ''S'', leg_to = ''D'', leg_depart = 0, leg_arrive = 60,
                 leg_deliver = 10, leg_unload = 3, leg_distance = 60\<rparr>],
       demands = [(''D'', 15)]\<rparr>"
    by (rule reachable.pass[OF reachable.start, where city = "''D''" and remaining = 25])
       (simp_all add: sim_defs)
  have cap: "0 \<le> vcapacity \<lparr>vid = 1, vcapacity = 10, vstart = Some 0\<rparr>"
    by simp
  have dbl: "is_double (vcapacity \<lparr>vid = 1, vcapacity = 10, vstart = Some 0\<rparr>)"
    by (simp add: is_double_whole)
  have grid: "exact_grid whole_quantities
      \<and> vcapacity \<lparr>vid = 1, vcapacity = 10, vstart = Some 0\<rparr> \<in> whole_quantities
      \<and> (\<forall>p\<in>set [(''D'', 25)]. snd p \<in> whole_quantities)"
    by (simp add: exact_grid_whole)
  note th = capacity_invariant[OF cap dbl, where cities = "[''S'', ''D'']"
      and dm = "[[0, 60], [60, 0]]" and depot = "''S''" and start_dt = 0
      and dems = "[(''D'', 25)]" and Q = whole_quantities]
  from th pass have a: "0 \<le> capacity
        \<lparr>time_var = 63, location = ''D'', capacity = 0,
         route = [\<lparr>leg_from = ''S'', leg_to = ''D'', leg_depart = 0, leg_arrive = 60,
                   leg_deliver = 10, leg_unload = 3, leg_distance = 60\<rparr>],
         demands = [(''D'', 15)]\<rparr>"
    by blast
  from th grid sv have b: "\<forall>n\<le>length
         [\<lparr>leg_from = ''S'', leg_to = ''D'', leg_depart = 0, leg_arrive = 60,
           leg_deliver = 10, leg_unload = 3, leg_distance = 60\<rparr>,
          \<lparr>leg_from = ''D'', leg_to = ''S'', leg_depart = 63, leg_arrive = 123,
           leg_deliver = 0, leg_unload = 0, leg_distance = 60\<rparr>].
       load_since_refill (take n
         [\<lparr>leg_from = ''S'', leg_to = ''D'', leg_depart = 0, leg_arrive = 60,
           leg_deliver = 10, leg_unload = 3, leg_distance = 60\<rparr>,
          \<lparr>leg_from = ''D'', leg_to = ''S'', leg_depart = 63, leg_arrive = 123,
           leg_deliver = 0, leg_unload = 0, leg_distance = 60\<rparr>])
       \<le> vcapacity \<lparr>vid = 1, vcapacity = 10, vstart = Some 0\<rparr>"
    by blast
  from b[rule_format, of 0] b[rule_format, of 1] b[rule_format, of 2] a
  show ?thesis
    by simp
qed

text \<open>
  The claim as stated fails: a vehicle of capacity 1 delivers \<open>2 ^ -55\<close> to A, which its
  remaining capacity absorbs, and then 1 to B, without a refill in between.
\<close>

theorem capacity_invariant_counterexample:
  "simulate_vehicle [''S'', ''A'', ''B''] [[0, 60, 60], [60, 0, 60], [60, 60, 0]] ''S''
     \<lparr>vid = 1, vcapacity = 1, vstart = Some 0\<rparr>
     [(''A'', 1 / 36028797018963968), (''B'', 1)]
   = Some (Inr ([\<lparr>leg_from = ''S'', leg_to = ''A'', leg_depart = 0, leg_arrive = 60,
                   leg_deliver = 1 / 36028797018963968,
                   leg_unload = 1 / 36028797018963968 / 100 * 30, leg_distance = 60\<rparr>,
                 \<lparr>leg_from = ''A'', leg_to = ''B'',
                   leg_depart = 60 + 1 / 36028797018963968 / 100 * 30,
                   leg_arrive = 120 + 1 / 36028797018963968 / 100 * 30,
                   leg_deliver = 1, leg_unload = 3 / 10, leg_distance = 60\<rparr>,
                 \<lparr>leg_from = ''B'', leg_to = ''S'',
                   leg_depart = 120 + 1 / 36028797018963968 / 100 * 30 + 3 / 10,
                   leg_arrive = 180 + 1 / 36028797018963968 / 100 * 30 + 3 / 10,
                   leg_deliver = 0, leg_unload = 0, leg_distance = 60\<rparr>],
                [(''A'', 0), (''B'', 0)]))
   \<and> \<not> load_since_refill (take 2
          [\<lparr>leg_from = ''S'', leg_to = ''A'', leg_depart = 0, leg_arrive = 60,
            leg_deliver = 1 / 36028797018963968,
            leg_unload = 1 / 36028797018963968 / 100 * 30, leg_distance = 60\<rparr>,
           \<lparr>leg_from = ''A'', leg_to = ''B'',
            leg_depart = 60 + 1 / 36028797018963968 / 100 * 30,
            leg_arrive = 120 + 1 / 36028797018963968 / 100 * 30,
            leg_deliver = 1, leg_unload = 3 / 10, leg_distance = 60\<rparr>,
           \<lparr>leg_from = ''B'', leg_to = ''S'',
            leg_depart = 120 + 1 / 36028797018963968 / 100 * 30 + 3 / 10,
            leg_arrive = 180 + 1 / 36028797018963968 / 100 * 30 + 3 / 10,
            leg_deliver = 0, leg_unload = 0, leg_distance = 60\<rparr>])
        \<le> vcapacity \<lparr>vid = 1, vcapacity = 1, vstart = Some 0\<rparr>"
  by (simp add: sim_defs fsub_absorbed load_since_refill_def)

section \<open>The route ends at the depot\<close>

text \<open>
  Claim C7. A non-empty route returned by \<^verbatim>\<open>simulate_vehicle\<close> ends with a leg whose
  destination is the depot. Whatever the route, it is the route of the state \<open>s\<close> in
  which the for loop over the demand cities ended, followed by exactly one leg from the
  location of \<open>s\<close> to the depot that delivers nothing if that location is not the depot,
  and by nothing otherwise.
\<close>

theorem route_ends_at_depot:
  assumes "simulate_vehicle cities dm depot v dems = Some (Inr (r, dems'))"
  shows "(r \<noteq> [] \<longrightarrow> leg_to (last r) = depot)
       \<and> (\<exists>start_dt s. vstart v = Some start_dt
            \<and> for_cities cities dm depot (vcapacity v) (map fst dems)
                (initial_state depot v start_dt dems) = Some (Inr s)
            \<and> dems' = demands s
            \<and> (if location s \<noteq> depot
                then \<exists>km. dist_between cities dm (location s) depot = Inr km
                       \<and> r = route s @
                           [\<lparr>leg_from = location s, leg_to = depot, leg_depart = time_var s,
                             leg_arrive = time_var s + (km / 60) * 60, leg_deliver = 0,
                             leg_unload = 0, leg_distance = km\<rparr>]
                else r = route s))"
proof -
  from assms obtain t s where
    s: "vstart v = Some t"
       "for_cities cities dm depot (vcapacity v) (map fst dems)
          (initial_state depot v t dems) = Some (Inr s)"
       "close_route cities dm depot s = Inr r" "dems' = demands s"
    by (rule simulate_vehicle_for_cities)
  have "reachable cities dm depot (vcapacity v) (initial_state depot v t dems) s"
    using s(2) by (rule for_cities_reachable)
  then have last: "route s \<noteq> [] \<longrightarrow> leg_to (last (route s)) = location s"
    by (rule reachable_last_leg) (simp add: initial_state_def)
  have form: "if location s \<noteq> depot
      then \<exists>km. dist_between cities dm (location s) depot = Inr km
             \<and> r = route s @
                 [\<lparr>leg_from = location s, leg_to = depot, leg_depart = time_var s,
                   leg_arrive = time_var s + (km / 60) * 60, leg_deliver = 0,
                   leg_unload = 0, leg_distance = km\<rparr>]
      else r = route s"
    using s(3) by (auto simp: close_route_closed_form bindE_eq_Inr split: if_splits)
  have "r \<noteq> [] \<longrightarrow> leg_to (last r) = depot"
    using form last by (auto split: if_splits)
  with s(1,2,4) form show ?thesis by blast
qed

theorem route_ends_at_depot_witness:
  "simulate_vehicle [''S'', ''D''] [[0, 60], [60, 0]] ''S''
      \<lparr>vid = 1, vcapacity = 10, vstart = Some 0\<rparr> [(''D'', 25)]
    = Some (Inr ([\<lparr>leg_from = ''S'', leg_to = ''D'', leg_depart = 0, leg_arrive = 60,
                   leg_deliver = 10, leg_unload = 3, leg_distance = 60\<rparr>,
                  \<lparr>leg_from = ''D'', leg_to = ''S'', leg_depart = 63, leg_arrive = 123,
                   leg_deliver = 0, leg_unload = 0, leg_distance = 60\<rparr>],
                 [(''D'', 15)]))
   \<and> leg_to (last
     [\<lparr>leg_from = ''S'', leg_to = ''D'', leg_depart = 0, leg_arrive = 60,
       leg_deliver = 10, leg_unload = 3, leg_distance = 60\<rparr>,
      \<lparr>leg_from = ''D'', leg_to = ''S'', leg_depart = 63, leg_arrive = 123,
       leg_deliver = 0, leg_unload = 0, leg_distance = 60\<rparr>]) = ''S''"
proof -
  have sv: "simulate_vehicle [''S'', ''D''] [[0, 60], [60, 0]] ''S''
      \<lparr>vid = 1, vcapacity = 10, vstart = Some 0\<rparr> [(''D'', 25)]
    = Some (Inr ([\<lparr>leg_from = ''S'', leg_to = ''D'', leg_depart = 0, leg_arrive = 60,
                   leg_deliver = 10, leg_unload = 3, leg_distance = 60\<rparr>,
                  \<lparr>leg_from = ''D'', leg_to = ''S'', leg_depart = 63, leg_arrive = 123,
                   leg_deliver = 0, leg_unload = 0, leg_distance = 60\<rparr>],
                 [(''D'', 15)]))"
    by (simp add: sim_defs)
  have ne: "[\<lparr>leg_from = ''S'', leg_to = ''D'', leg_depart = 0, leg_arrive = 60,
                   leg_deliver = 10, leg_unload = 3, leg_distance = (60::real)\<rparr>,
                  \<lparr>leg_from = ''D'', leg_to = ''S'', leg_depart = 63, leg_arrive = 123,
                   leg_deliver = 0, leg_unload = 0, leg_distance = 60\<rparr>] \<noteq> []"
    by simp
  from route_ends_at_depot[OF sv] ne sv show ?thesis
    by blast
qed

section \<open>Termination of a vehicle's simulation\<close>




section \<open>Duplicate city names\<close>

text \<open>
  Claim C10. If \<open>d\<close> is the last demand record of the input that declares its city, the
  demands dict of \<^verbatim>\<open>run_vrptw\<close> holds for that city the quantity of \<open>d\<close>, whatever
  earlier records declare for the same city, and it holds one entry per city name. The
  quantities of the earlier records are dropped: when the quantity of \<open>d\<close> is a double
  and not negative, every leg of the plan to the city delivers at most that quantity,
  and when no subtraction is rounded the legs of the plan together deliver at most
  that quantity to the city.
\<close>

theorem duplicate_city_last_record:
  assumes "ds = xs @ d # ys" and "\<forall>y\<in>set ys. d_city y \<noteq> d_city d"
  shows "map_of (demands_copy ds) (d_city d) = Some (d_demand d)
       \<and> distinct (map fst (demands_copy ds))
       \<and> (0 \<le> d_demand d \<longrightarrow> is_double (d_demand d) \<longrightarrow>
          for_vehicles cities dm depot vehicles [] (demands_copy ds)
            = Some (Inr (solution, dems')) \<longrightarrow>
          (\<forall>p\<in>set solution. \<forall>l\<in>set (snd p).
             leg_to l = d_city d \<longrightarrow> leg_deliver l \<le> d_demand d))
       \<and> (0 \<le> d_demand d \<longrightarrow> exact_grid Q \<longrightarrow> (\<forall>v\<in>set vehicles. vcapacity v \<in> Q) \<longrightarrow>
          (\<forall>e\<in>set ds. d_demand e \<in> Q) \<longrightarrow>
          for_vehicles cities dm depot vehicles [] (demands_copy ds)
            = Some (Inr (solution, dems')) \<longrightarrow>
          plan_delivered_to (d_city d) solution \<le> d_demand d)"
proof -
  have entry: "map_of (demands_copy ds) (d_city d) = Some (d_demand d)"
    using assms by (rule demands_copy_last)
  have legs: "\<forall>p\<in>set solution. \<forall>l\<in>set (snd p).
             leg_to l = d_city d \<longrightarrow> leg_deliver l \<le> d_demand d"
    if "0 \<le> d_demand d" "is_double (d_demand d)"
      and run: "for_vehicles cities dm depot vehicles [] (demands_copy ds)
                  = Some (Inr (solution, dems'))"
    using for_vehicles_demand_bounds[OF run entry that(1,2) order_refl] by auto
  have total: "plan_delivered_to (d_city d) solution \<le> d_demand d"
    if nn: "0 \<le> d_demand d"
      and g: "exact_grid Q" "\<forall>v\<in>set vehicles. vcapacity v \<in> Q" "\<forall>e\<in>set ds. d_demand e \<in> Q"
      and run: "for_vehicles cities dm depot vehicles [] (demands_copy ds)
                  = Some (Inr (solution, dems'))"
  proof -
    have "\<forall>p\<in>set (demands_copy ds). snd p \<in> Q" using g(3) by (rule demands_copy_grid)
    from for_vehicles_demand_exact[OF run g(1,2) this _ entry] nn obtain x where
      "0 \<le> x" "x + plan_delivered_to (d_city d) solution \<le> d_demand d"
      by (auto simp: plan_delivered_to_def)
    then show ?thesis by simp
  qed
  from entry distinct_demands_copy legs total show ?thesis by blast
qed

theorem duplicate_city_last_record_witness:
  "map_of (demands_copy
      [\<lparr>d_city = ''A'', d_demand = 5, tw_start = ''09:00'', tw_end = ''17:00''\<rparr>,
       \<lparr>d_city = ''A'', d_demand = 7, tw_start = ''10:00'', tw_end = ''18:00''\<rparr>]) ''A''
     = Some 7
   \<and> plan_delivered_to ''A''
        [(1, [\<lparr>leg_from = ''S'', leg_to = ''A'', leg_depart = 0, leg_arrive = 60,
                leg_deliver = 7, leg_unload = 21 / 10, leg_distance = 60\<rparr>,
              \<lparr>leg_from = ''A'', leg_to = ''S'', leg_depart = 60 + 21 / 10,
                leg_arrive = 120 + 21 / 10,
                leg_deliver = 0, leg_unload = 0, leg_distance = 60\<rparr>])] \<le> 7"
proof -
  have run: "for_vehicles [''S'', ''A''] [[0, 60], [60, 0]] ''S''
      [\<lparr>vid = 1, vcapacity = 10, vstart = Some 0\<rparr>] []
      (demands_copy
        ([\<lparr>d_city = ''A'', d_demand = 5, tw_start = ''09:00'', tw_end = ''17:00''\<rparr>]
         @ \<lparr>d_city = ''A'', d_demand = 7, tw_start = ''10:00'', tw_end = ''18:00''\<rparr> # []))
    = Some (Inr ([(1, [\<lparr>leg_from = ''S'', leg_to = ''A'', leg_depart = 0, leg_arrive = 60,
                leg_deliver = 7, leg_unload = 21 / 10, leg_distance = 60\<rparr>,
              \<lparr>leg_from = ''A'', leg_to = ''S'', leg_depart = 60 + 21 / 10,
                leg_arrive = 120 + 21 / 10,
                leg_deliver = 0, leg_unload = 0, leg_distance = 60\<rparr>])],
                 [(''A'', 0)]))"
    by (simp add: sim_defs demands_copy_def)
  have last: "\<forall>y\<in>set []. d_city y \<noteq>
      d_city \<lparr>d_city = ''A'', d_demand = 7, tw_start = ''10:00'', tw_end = ''18:00''\<rparr>"
    by simp
  have nn: "0 \<le> d_demand
      \<lparr>d_city = ''A'', d_demand = 7, tw_start = ''10:00'', tw_end = ''18:00''\<rparr>"
    by simp
  have grid: "exact_grid whole_quantities"
    "\<forall>v\<in>set [\<lparr>vid = 1, vcapacity = 10, vstart = Some 0\<rparr>]. vcapacity v \<in> whole_quantities"
    "\<forall>e\<in>set ([\<lparr>d_city = ''A'', d_demand = 5, tw_start = ''09:00'', tw_end = ''17:00''\<rparr>]
         @ \<lparr>d_city = ''A'', d_demand = 7, tw_start = ''10:00'', tw_end = ''18:00''\<rparr> # []).
       d_demand e \<in> whole_quantities"
    by (simp_all add: exact_grid_whole)
  note th = duplicate_city_last_record[OF refl last,
      where xs = "[\<lparr>d_city = ''A'', d_demand = 5, tw_start = ''09:00'', tw_end = ''17:00''\<rparr>]"
        and Q = whole_quantities]
  from th have entry: "map_of (demands_copy
        ([\<lparr>d_city = ''A'', d_demand = 5, tw_start = ''09:00'', tw_end = ''17:00''\<rparr>]
         @ \<lparr>d_city = ''A'', d_demand = 7, tw_start = ''10:00'', tw_end = ''18:00''\<rparr> # []))
      (d_city \<lparr>d_city = ''A'', d_demand = 7, tw_start = ''10:00'', tw_end = ''18:00''\<rparr>)
    = Some (d_demand
        \<lparr>d_city = ''A'', d_demand = 7, tw_start = ''10:00'', tw_end = ''18:00''\<rparr>)"
    by (rule conjunct1)
  from th nn grid run have plan: "plan_delivered_to
      (d_city \<lparr>d_city = ''A'', d_demand = 7, tw_start = ''10:00'', tw_end = ''18:00''\<rparr>)
      [(1, [\<lparr>leg_from = ''S'', leg_to = ''A'', leg_depart = 0, leg_arrive = 60,
                leg_deliver = 7, leg_unload = 21 / 10, leg_distance = 60\<rparr>,
              \<lparr>leg_from = ''A'', leg_to = ''S'', leg_depart = 60 + 21 / 10,
                leg_arrive = 120 + 21 / 10,
                leg_deliver = 0, leg_unload = 0, leg_distance = 60\<rparr>])]
      \<le> d_demand
        \<lparr>d_city = ''A'', d_demand = 7, tw_start = ''10:00'', tw_end = ''18:00''\<rparr>"
    by blast
  from entry plan show ?thesis
    by simp
qed

end
